theory Spec2Isabelle
  imports Main "HOL-Library.Word"
begin

section \<open>JavaScript values\<close>

text \<open>
  The handler of \<^verbatim>\<open>netlify/functions/quote-request.js\<close> works on untyped values: the
  event it receives, the payload \<^verbatim>\<open>JSON.parse\<close> returns and the body the mail provider
  answers with. They are modelled by one datatype. A string is a list of code units; the
  model covers the code units below 256, which is the range of \<^typ>\<open>char\<close>. A number is
  an integer from \<open>-2^53\<close> to \<open>2^53 - 1\<close>, held as the signed value of a 54-bit word:
  each of them is a double, and \<^verbatim>\<open>String\<close> prints it in plain decimal digits (the
  exponent notation starts at \<open>10^21\<close>). The code only tests numbers for truthiness and
  converts them to text.
  An object is the list of its own properties; \<^verbatim>\<open>JSON.parse\<close> produces no duplicate key
  and no function.
\<close>

datatype jsval =
    JUndefined
  | JNull
  | JBool bool
  | JNum "54 word"
  | JStr string
  | JArr "jsval list"
  | JObj "(string \<times> jsval) list"

text \<open>An uncaught exception. Every exception the handler can raise on these values is a
  \<^verbatim>\<open>TypeError\<close>: a property read on \<^verbatim>\<open>null\<close> or \<^verbatim>\<open>undefined\<close>, a call of something
  that is not a function, a conversion to a primitive that fails.\<close>

datatype error = TypeError

fun truthy :: "jsval \<Rightarrow> bool" where
  "truthy JUndefined = False"
| "truthy JNull = False"
| "truthy (JBool b) = b"
| "truthy (JNum n) = (n \<noteq> 0)"
| "truthy (JStr s) = (s \<noteq> [])"
| "truthy (JArr xs) = True"
| "truthy (JObj kvs) = True"

text \<open>\<^verbatim>\<open>a || b\<close> on values.\<close>

definition or_else :: "jsval \<Rightarrow> jsval \<Rightarrow> jsval" where
  "or_else a b = (if truthy a then a else b)"

text \<open>
  \<^verbatim>\<open>v.k\<close> for the property names the handler reads (\<^verbatim>\<open>company\<close>, \<^verbatim>\<open>fullName\<close>,
  \<^verbatim>\<open>x-forwarded-for\<close>, \<^verbatim>\<open>filename\<close>, \<^verbatim>\<open>message_id\<close>, ...). None of them is a property of
  a built-in prototype, of a string or of an array, so the read gives the own property of
  an object and \<^verbatim>\<open>undefined\<close> on everything else, and throws on \<^verbatim>\<open>null\<close> and
  \<^verbatim>\<open>undefined\<close>.
\<close>

fun own_prop :: "jsval \<Rightarrow> string \<Rightarrow> jsval" where
  "own_prop (JObj kvs) k = (case map_of kvs k of None \<Rightarrow> JUndefined | Some v \<Rightarrow> v)"
| "own_prop v k = JUndefined"

fun nullish :: "jsval \<Rightarrow> bool" where
  "nullish JUndefined = True"
| "nullish JNull = True"
| "nullish v = False"

definition get_prop :: "jsval \<Rightarrow> string \<Rightarrow> error + jsval" where
  "get_prop v k = (if nullish v then Inl TypeError else Inr (own_prop v k))"

text \<open>\<^verbatim>\<open>v?.k\<close>\<close>

definition opt_prop :: "jsval \<Rightarrow> string \<Rightarrow> jsval" where
  "opt_prop v k = (if nullish v then JUndefined else own_prop v k)"

subsection \<open>Strings\<close>

text \<open>White space and line terminators of ECMAScript among the code units below 256:
  TAB, LF, VT, FF, CR, SP and NBSP. \<^verbatim>\<open>\s\<close> and \<^verbatim>\<open>trim\<close> use the same class.\<close>

definition is_space :: "char \<Rightarrow> bool" where
  "is_space c = (c \<in> set [CHR 0x09, CHR 0x0A, CHR 0x0B, CHR 0x0C, CHR 0x0D, CHR 0x20, CHR 0xA0])"

definition trim :: "string \<Rightarrow> string" where
  "trim s = rev (dropWhile is_space (rev (dropWhile is_space s)))"

text \<open>\<^verbatim>\<open>s.split(",")[0]\<close>: the part before the first comma, the whole string when there is
  none.\<close>

definition split_first :: "string \<Rightarrow> string" where
  "split_first s = takeWhile (\<lambda>c. c \<noteq> CHR '','') s"

definition digit_char :: "nat \<Rightarrow> char" where
  "digit_char d = ''0123456789'' ! d"

fun show_nat :: "nat \<Rightarrow> string" where
  "show_nat n = (if n < 10 then [digit_char n] else show_nat (n div 10) @ [digit_char (n mod 10)])"

declare show_nat.simps [simp del]

definition show_int :: "int \<Rightarrow> string" where
  "show_int i = (if i < 0 then CHR ''-'' # show_nat (nat (- i)) else show_nat (nat i))"

text \<open>
  \<^verbatim>\<open>String(v)\<close>, which is also the conversion of \<^verbatim>\<open>RegExp.prototype.test\<close> and of a
  template literal. An array joins its elements with commas, \<^verbatim>\<open>null\<close> and \<^verbatim>\<open>undefined\<close>
  elements giving the empty string. An object goes through \<^verbatim>\<open>Object.prototype.toString\<close>
  unless it has an own property \<^verbatim>\<open>toString\<close>: that one is not callable, \<^verbatim>\<open>valueOf\<close>
  returns no primitive, and the conversion throws.
\<close>

fun to_string :: "jsval \<Rightarrow> error + string"
  and join_elems :: "jsval list \<Rightarrow> error + string" where
  "to_string JUndefined = Inr ''undefined''"
| "to_string JNull = Inr ''null''"
| "to_string (JBool b) = Inr (if b then ''true'' else ''false'')"
| "to_string (JNum n) = Inr (show_int (sint n))"
| "to_string (JStr s) = Inr s"
| "to_string (JArr xs) = join_elems xs"
| "to_string (JObj kvs) =
     (if map_of kvs ''toString'' \<noteq> None then Inl TypeError else Inr ''[object Object]'')"
| "join_elems [] = Inr []"
| "join_elems (x # xs) =
     (case (if nullish x then Inr [] else to_string x) of
        Inl e \<Rightarrow> Inl e
      | Inr s \<Rightarrow>
          (if xs = [] then Inr s
           else (case join_elems xs of Inl e \<Rightarrow> Inl e | Inr r \<Rightarrow> Inr (s @ '','' @ r))))"

text \<open>\<^verbatim>\<open>v.trim()\<close>: only a string has the method.\<close>

fun js_trim :: "jsval \<Rightarrow> error + string" where
  "js_trim (JStr s) = Inr (trim s)"
| "js_trim v = Inl TypeError"

subsection \<open>The regular expression of the email check\<close>

text \<open>\<^verbatim>\<open>/^\S+@\S+\.\S+$/\<close> is a sequence of literal characters and of \<^verbatim>\<open>\S+\<close>, anchored
  at both ends. A pattern is the list of its items; the end of the list is \<^verbatim>\<open>$\<close>.\<close>

datatype rx_item = NonSpacePlus | Lit char

fun rx_match :: "rx_item list \<Rightarrow> string \<Rightarrow> bool" where
  "rx_match [] s = (s = [])"
| "rx_match (Lit c # r) [] = False"
| "rx_match (Lit c # r) (x # xs) = (x = c \<and> rx_match r xs)"
| "rx_match (NonSpacePlus # r) [] = False"
| "rx_match (NonSpacePlus # r) (x # xs) =
     (\<not> is_space x \<and> (rx_match (NonSpacePlus # r) xs \<or> rx_match r xs))"

definition email_pattern :: "rx_item list" where
  "email_pattern = [NonSpacePlus, Lit CHR ''@'', NonSpacePlus, Lit CHR ''.'', NonSpacePlus]"

definition email_test :: "jsval \<Rightarrow> error + bool" where
  "email_test v = (case to_string v of Inl e \<Rightarrow> Inl e | Inr s \<Rightarrow> Inr (rx_match email_pattern s))"

section \<open>The handler\<close>

subsection \<open>Events, responses and the world around one invocation\<close>

text \<open>The event: \<^verbatim>\<open>event.httpMethod\<close>, \<^verbatim>\<open>event.headers\<close> (any value: the rate limiter
  guards against unexpected shapes) and \<^verbatim>\<open>event.body\<close> (\<open>None\<close> when there is no body).\<close>

record event =
  httpMethod :: string
  headers :: jsval
  body :: "string option"

text \<open>What \<^verbatim>\<open>json(status, data)\<close> returns. \<open>resp_body\<close> holds the value that the source
  hands to \<^verbatim>\<open>JSON.stringify\<close>.\<close>

record response =
  statusCode :: nat
  resp_headers :: "(string \<times> string) list"
  resp_body :: jsval

definition json :: "nat \<Rightarrow> jsval \<Rightarrow> response" where
  "json status data =
     \<lparr>statusCode = status,
      resp_headers =
        [(''Content-Type'', ''application/json''),
         (''Access-Control-Allow-Origin'', ''*''),
         (''Access-Control-Allow-Headers'', ''Content-Type''),
         (''Access-Control-Allow-Methods'', ''POST, OPTIONS'')],
      resp_body = data\<rparr>"

text \<open>What \<^verbatim>\<open>await fetch(...)\<close> gives: the promise rejects, or it resolves to a response
  with a status and a body that \<^verbatim>\<open>resp.json()\<close> parses (\<open>None\<close> when it throws).
  \<^verbatim>\<open>resp.ok\<close> is true for the statuses 200 to 299.\<close>

datatype fetch_result = Rejected | Resolved nat "jsval option"

definition ok :: "nat \<Rightarrow> bool" where
  "ok status = (200 \<le> status \<and> status \<le> 299)"

text \<open>
  Everything an invocation reads from outside its arguments: \<^verbatim>\<open>Date.now()\<close>,
  \<^verbatim>\<open>process.env\<close>, \<^verbatim>\<open>JSON.parse\<close> (\<open>None\<close> when it throws), and what the provider does
  with the business email and with the confirmation email.
\<close>

record world =
  now :: int
  env :: "string \<rightharpoonup> string"
  JSON_parse :: "string \<Rightarrow> jsval option"
  business_fetch :: fetch_result
  confirmation_fetch :: fetch_result

text \<open>\<^verbatim>\<open>globalThis.__hits\<close>: the timestamps of the recent requests of each client. A map
  that does not exist yet is the empty map.\<close>

type_synonym hits = "string \<rightharpoonup> int list"

datatype log_entry = Warn string | Error string | ErrorThrown

subsection \<open>Step 0: the rate limiter\<close>

definition RATE :: nat where
  "RATE = 5"

definition WINDOW_MS :: int where
  "WINDOW_MS = 10 * 60 * 1000"

text \<open>
  \<^verbatim>\<open>(event.headers["x-forwarded-for"] || event.headers["client-ip"] || "").split(",")[0].trim() || "unknown"\<close>.
  The first read throws when \<^verbatim>\<open>event.headers\<close> is \<^verbatim>\<open>undefined\<close> or \<^verbatim>\<open>null\<close>;
  \<^verbatim>\<open>split\<close> exists on strings only.
\<close>

definition client_ip :: "jsval \<Rightarrow> error + string" where
  "client_ip hs =
     (case get_prop hs ''x-forwarded-for'' of
        Inl e \<Rightarrow> Inl e
      | Inr a \<Rightarrow>
          (case or_else a (or_else (own_prop hs ''client-ip'') (JStr [])) of
             JStr s \<Rightarrow>
               (let ip = trim (split_first s) in Inr (if ip = [] then ''unknown'' else ip))
           | _ \<Rightarrow> Inl TypeError))"

text \<open>The bucket after the request: the entries of the window, then the current time.\<close>

definition new_bucket :: "int \<Rightarrow> int list \<Rightarrow> int list" where
  "new_bucket t old = filter (\<lambda>t'. t - t' < WINDOW_MS) old @ [t]"

definition bucket_of :: "hits \<Rightarrow> string \<Rightarrow> int list" where
  "bucket_of store ip = (case store ip of None \<Rightarrow> [] | Some b \<Rightarrow> b)"

text \<open>The body of the \<^verbatim>\<open>try\<close>: the new store and whether the request is rejected, or
  the exception, raised before the store is touched.\<close>

definition rate_limit :: "int \<Rightarrow> jsval \<Rightarrow> hits \<Rightarrow> error + (hits \<times> bool)" where
  "rate_limit t hs store =
     (case client_ip hs of
        Inl e \<Rightarrow> Inl e
      | Inr ip \<Rightarrow>
          (let bucket = new_bucket t (bucket_of store ip)
           in Inr (store(ip \<mapsto> bucket), length bucket > RATE)))"

subsection \<open>Step 2: the payload and its validation\<close>

text \<open>The variables of the destructuring \<^verbatim>\<open>const { fullName = "", ... } = payload || {}\<close>.\<close>

record quote =
  fullName :: jsval
  phone :: jsval
  email :: jsval
  address :: jsval
  service :: jsval
  date :: jsval
  message :: jsval
  attachments :: jsval

text \<open>A destructuring default applies when the property is \<^verbatim>\<open>undefined\<close>, and only then.\<close>

definition field :: "jsval \<Rightarrow> string \<Rightarrow> jsval \<Rightarrow> jsval" where
  "field src k dflt = (if own_prop src k = JUndefined then dflt else own_prop src k)"

text \<open>The payload is not \<^verbatim>\<open>null\<close> here: \<^verbatim>\<open>payload.company\<close> was read before. The default of
  \<^verbatim>\<open>address\<close> reads \<^verbatim>\<open>payload\<close> itself, the others are constants.\<close>

definition destructure :: "jsval \<Rightarrow> quote" where
  "destructure payload =
     (let src = (if truthy payload then payload else JObj [])
      in \<lparr>fullName = field src ''fullName'' (JStr []),
          phone = field src ''phone'' (JStr []),
          email = field src ''email'' (JStr []),
          address = field src ''address''
            (or_else (own_prop payload ''address'') (or_else (own_prop payload ''postcode'') (JStr []))),
          service = field src ''service'' (JStr []),
          date = field src ''date'' (JStr []),
          message = field src ''message'' (JStr []),
          attachments = field src ''attachments'' (JArr [])\<rparr>)"

definition ebind :: "error + 'a \<Rightarrow> ('a \<Rightarrow> error + 'b) \<Rightarrow> error + 'b" where
  "ebind m f = (case m of Inl e \<Rightarrow> Inl e | Inr x \<Rightarrow> f x)"

text \<open>The conditional chain that computes \<^verbatim>\<open>missing\<close>; \<open>None\<close> is \<^verbatim>\<open>null\<close>.\<close>

definition missing :: "quote \<Rightarrow> error + string option" where
  "missing q =
     ebind (js_trim (fullName q)) (\<lambda>n.
       if n = [] then Inr (Some ''name'')
       else ebind (email_test (email q)) (\<lambda>m.
         if \<not> m then Inr (Some ''valid email'')
         else ebind (js_trim (phone q)) (\<lambda>p.
           if p = [] then Inr (Some ''phone'')
           else ebind (js_trim (address q)) (\<lambda>a.
             if a = [] then Inr (Some ''postcode'')
             else if \<not> truthy (service q) then Inr (Some ''service'')
             else ebind (js_trim (message q)) (\<lambda>t.
               if t = [] then Inr (Some ''message'') else Inr None)))))"

subsection \<open>Steps 3 and 4: the content of the business email\<close>

text \<open>\<^verbatim>\<open>safe = (s) => String(s || "").toString()\<close>\<close>

definition safe :: "jsval \<Rightarrow> error + string" where
  "safe s = to_string (or_else s (JStr []))"

text \<open>
  The subject, the text body and the HTML body are fixed templates around the strings
  below; the model keeps the strings and leaves the fixed text out. They are computed in
  the order of the source: the subject, the text body, the HTML body. The HTML body uses
  \<^verbatim>\<open>safe(date || "n/a")\<close> for the date and \<^verbatim>\<open>safe(message).replace(/\n/g, "<br>")\<close>
  for the message.
\<close>

definition br :: "string \<Rightarrow> string" where
  "br s = concat (map (\<lambda>c. if c = CHR 0x0A then ''<br>'' else [c]) s)"

record mail_content =
  subject_fullName :: string
  subject_service :: string
  text_fields :: "string list"
  html_fields :: "string list"

fun safe_all :: "jsval list \<Rightarrow> error + string list" where
  "safe_all [] = Inr []"
| "safe_all (v # vs) = ebind (safe v) (\<lambda>s. ebind (safe_all vs) (\<lambda>r. Inr (s # r)))"

definition build_content :: "quote \<Rightarrow> error + mail_content" where
  "build_content q =
     ebind (safe (fullName q)) (\<lambda>n.
     ebind (safe (service q)) (\<lambda>s.
     ebind (safe_all [fullName q, phone q, email q, address q, service q, date q, message q]) (\<lambda>ts.
     ebind (safe_all [fullName q, phone q, email q, address q, service q,
                      or_else (date q) (JStr ''n/a'')]) (\<lambda>hs.
     ebind (safe (message q)) (\<lambda>m.
       Inr \<lparr>subject_fullName = n, subject_service = s, text_fields = ts,
            html_fields = hs @ [br m]\<rparr>)))))"

text \<open>An attachment in the provider's format: \<^verbatim>\<open>{ filename, content }\<close>.\<close>

record attachment =
  filename :: jsval
  content :: jsval

text \<open>The \<^verbatim>\<open>map\<close> callback, applied to the elements from index \<open>i\<close> on; \<^verbatim>\<open>a.filename\<close>
  throws on a \<^verbatim>\<open>null\<close> element.\<close>

fun convert :: "nat \<Rightarrow> jsval list \<Rightarrow> error + attachment list" where
  "convert i [] = Inr []"
| "convert i (a # as) =
     ebind (get_prop a ''filename'') (\<lambda>f.
       ebind (convert (i + 1) as) (\<lambda>r.
         Inr (\<lparr>filename = or_else f (JStr (''photo-'' @ show_nat (i + 1) @ ''.jpg'')),
               content = or_else (own_prop a ''base64'') (JStr [])\<rparr> # r)))"

definition msAttachments :: "jsval \<Rightarrow> error + attachment list" where
  "msAttachments atts =
     (case atts of
        JArr xs \<Rightarrow> if xs = [] then Inr [] else convert 0 (take 5 xs)
      | _ \<Rightarrow> Inr [])"

subsection \<open>Steps 5 and 6: the two calls of the provider\<close>

text \<open>The JSON bodies posted to \<^verbatim>\<open>https://api.mailersend.com/v1/email\<close>, with the bearer
  token of the \<^verbatim>\<open>Authorization\<close> header.\<close>

record business_mail =
  bm_token :: jsval
  bm_from :: jsval
  bm_to :: jsval
  bm_reply_to :: jsval
  bm_content :: mail_content
  bm_attachments :: "attachment list"

text \<open>The confirmation interpolates \<^verbatim>\<open>fullName || ""\<close> (text) and \<^verbatim>\<open>fullName || "there"\<close>
  (HTML), \<^verbatim>\<open>service || "Handyman service"\<close>, \<^verbatim>\<open>address || ""\<close> and
  \<^verbatim>\<open>date || "Not specified"\<close>.\<close>

record confirmation_mail =
  cm_token :: jsval
  cm_from :: jsval
  cm_to :: jsval
  cm_text_fields :: "string list"
  cm_html_fields :: "string list"

datatype call = BusinessMail business_mail | ConfirmationMail confirmation_mail

fun strings :: "jsval list \<Rightarrow> error + string list" where
  "strings [] = Inr []"
| "strings (v # vs) = ebind (to_string v) (\<lambda>s. ebind (strings vs) (\<lambda>r. Inr (s # r)))"

definition confirmation_body :: "jsval \<Rightarrow> jsval \<Rightarrow> quote \<Rightarrow> error + confirmation_mail" where
  "confirmation_body token sender q =
     ebind (strings [or_else (fullName q) (JStr []),
                     or_else (service q) (JStr ''Handyman service''),
                     or_else (address q) (JStr []),
                     or_else (date q) (JStr ''Not specified'')]) (\<lambda>ts.
     ebind (strings [or_else (fullName q) (JStr ''there''),
                     or_else (service q) (JStr ''Handyman service''),
                     or_else (address q) (JStr []),
                     or_else (date q) (JStr ''Not specified'')]) (\<lambda>hs.
       Inr \<lparr>cm_token = token, cm_from = sender, cm_to = email q,
            cm_text_fields = ts, cm_html_fields = hs\<rparr>))"

text \<open>
  The detached \<^verbatim>\<open>(async () => { try { await fetch(...) } catch (e) { console.warn(...) } })()\<close>:
  the calls it issues and what it logs, now or when its promise settles. It returns
  nothing to the handler. A provider response, whatever its status, is dropped.
\<close>

definition confirmation :: "world \<Rightarrow> jsval \<Rightarrow> jsval \<Rightarrow> quote \<Rightarrow> call list \<times> log_entry list" where
  "confirmation w token sender q =
     (case confirmation_body token sender q of
        Inl e \<Rightarrow> ([], [Warn ''Confirmation email failed:''])
      | Inr m \<Rightarrow>
          ([ConfirmationMail m],
           (case confirmation_fetch w of
              Rejected \<Rightarrow> [Warn ''Confirmation email failed:'']
            | Resolved status js \<Rightarrow> [])))"

text \<open>\<^verbatim>\<open>let data = {}; try { data = await resp.json(); } catch {}\<close>\<close>

definition provider_data :: "jsval option \<Rightarrow> jsval" where
  "provider_data js = (case js of None \<Rightarrow> JObj [] | Some d \<Rightarrow> d)"

definition error_body :: "jsval \<Rightarrow> jsval" where
  "error_body msg = JObj [(''error'', msg)]"

text \<open>Steps 3 to 6. An exception of steps 3 and 4 is outside every \<^verbatim>\<open>try\<close>.\<close>

definition dispatch ::
  "world \<Rightarrow> jsval \<Rightarrow> jsval \<Rightarrow> jsval \<Rightarrow> quote \<Rightarrow> (error + response) \<times> call list \<times> log_entry list" where
  "dispatch w token sender recipient q =
     (case build_content q of
        Inl e \<Rightarrow> (Inl e, [], [])
      | Inr c \<Rightarrow>
     (case msAttachments (attachments q) of
        Inl e \<Rightarrow> (Inl e, [], [])
      | Inr atts \<Rightarrow>
          (let mail = BusinessMail
                 \<lparr>bm_token = token, bm_from = sender, bm_to = recipient,
                  bm_reply_to = email q, bm_content = c, bm_attachments = atts\<rparr>
           in case business_fetch w of
                Rejected \<Rightarrow>
                  (Inr (json 500 (error_body
                     (JStr ''Network error sending email. Please try again later.''))),
                   [mail], [ErrorThrown])
              | Resolved status js \<Rightarrow>
                  (let data = provider_data js
                   in if \<not> ok status then
                        (Inr (json 500 (error_body
                           (or_else (opt_prop data ''message'')
                              (JStr ''Email send failed. Please try again or call 07305 848484.'')))),
                         [mail], [Error ''MailerSend error:''])
                      else
                        (case confirmation w token sender q of
                           (calls, logs) \<Rightarrow>
                             (Inr (json 200 (JObj [(''ok'', JBool True),
                                (''id'', or_else (opt_prop data ''message_id'') (JStr ''sent''))])),
                              mail # calls, logs))))))"

subsection \<open>Steps 1 and 2, and the handler\<close>

text \<open>\<^verbatim>\<open>process.env.X\<close>: a string, or \<^verbatim>\<open>undefined\<close> when the variable is not set.\<close>

definition process_env :: "world \<Rightarrow> string \<Rightarrow> jsval" where
  "process_env w k = (case env w k of None \<Rightarrow> JUndefined | Some s \<Rightarrow> JStr s)"

text \<open>\<^verbatim>\<open>event.body || "{}"\<close>\<close>

definition body_text :: "event \<Rightarrow> string" where
  "body_text ev = (case body ev of None \<Rightarrow> ''{}'' | Some s \<Rightarrow> if s = [] then ''{}'' else s)"

text \<open>Everything after the rate limiter.\<close>

definition submit :: "world \<Rightarrow> event \<Rightarrow> (error + response) \<times> call list \<times> log_entry list" where
  "submit w ev =
     (let API_TOKEN = process_env w ''MAILERSEND_TOKEN'';
          FROM_EMAIL = process_env w ''MAILERSEND_FROM'';
          TO_EMAIL = process_env w ''MAILERSEND_TO''
      in if \<not> truthy API_TOKEN \<or> \<not> truthy FROM_EMAIL \<or> \<not> truthy TO_EMAIL
         then (Inr (json 500 (error_body (JStr ''Server not configured. Missing env vars.''))), [], [])
         else
           (case JSON_parse w (body_text ev) of
              None \<Rightarrow> (Inr (json 400 (error_body (JStr ''Bad JSON''))), [], [])
            | Some payload \<Rightarrow>
           (case get_prop payload ''company'' of
              Inl e \<Rightarrow> (Inl e, [], [])
            | Inr company \<Rightarrow>
                if truthy company
                then (Inr (json 200 (JObj [(''ok'', JBool True), (''skipped'', JBool True)])), [], [])
                else
                  (let q = destructure payload
                   in case missing q of
                        Inl e \<Rightarrow> (Inl e, [], [])
                      | Inr (Some m) \<Rightarrow>
                          (Inr (json 400 (error_body (JStr (''Please provide a '' @ m @ ''.'')))),
                           [], [])
                      | Inr None \<Rightarrow> dispatch w API_TOKEN FROM_EMAIL TO_EMAIL q))))"

text \<open>
  One invocation: what the promise of the handler settles to (a response, or the uncaught
  exception), the rate-limit store it leaves, the provider calls it issued, in order, and
  what it wrote to the console.
\<close>

record result =
  outcome :: "error + response"
  store :: hits
  calls :: "call list"
  logs :: "log_entry list"

definition handler :: "world \<Rightarrow> hits \<Rightarrow> event \<Rightarrow> result" where
  "handler w hs ev =
     (if httpMethod ev = ''OPTIONS'' then
        \<lparr>outcome = Inr (json 200 (JObj [(''ok'', JBool True)])), store = hs, calls = [], logs = []\<rparr>
      else if httpMethod ev \<noteq> ''POST'' then
        \<lparr>outcome = Inr (json 405 (error_body (JStr ''Method not allowed''))),
         store = hs, calls = [], logs = []\<rparr>
      else
        (case rate_limit (now w) (headers ev) hs of
           Inr (hs', True) \<Rightarrow>
             \<lparr>outcome = Inr (json 429 (error_body (JStr ''Too many requests. Please try again later.''))),
              store = hs', calls = [], logs = []\<rparr>
         | Inr (hs', False) \<Rightarrow>
             (case submit w ev of
                (r, cs, ls) \<Rightarrow> \<lparr>outcome = r, store = hs', calls = cs, logs = ls\<rparr>)
         | Inl e \<Rightarrow>
             (case submit w ev of
                (r, cs, ls) \<Rightarrow>
                  \<lparr>outcome = r, store = hs, calls = cs,
                   logs = Warn ''Rate limit check failed:'' # ls\<rparr>)))"

text \<open>Successive invocations of one process: each starts from the store the previous one
  left.\<close>

fun serve :: "hits \<Rightarrow> (world \<times> event) list \<Rightarrow> hits \<times> result list" where
  "serve hs [] = (hs, [])"
| "serve hs ((w, ev) # rest) =
     (let r = handler w hs ev in
      case serve (store r) rest of (hs', rs) \<Rightarrow> (hs', r # rs))"

section \<open>Vocabulary of the properties\<close>

text \<open>The response of a rejected request.\<close>

definition too_many_requests :: response where
  "too_many_requests = json 429 (error_body (JStr ''Too many requests. Please try again later.''))"

definition not_configured :: response where
  "not_configured = json 500 (error_body (JStr ''Server not configured. Missing env vars.''))"

definition skipped :: response where
  "skipped = json 200 (JObj [(''ok'', JBool True), (''skipped'', JBool True)])"

definition please_provide :: "string \<Rightarrow> response" where
  "please_provide f = json 400 (error_body (JStr (''Please provide a '' @ f @ ''.'')))"

text \<open>The rate limiter ran without exception and rejects the request.\<close>

definition limited :: "world \<Rightarrow> hits \<Rightarrow> event \<Rightarrow> bool" where
  "limited w hs ev = (case rate_limit (now w) (headers ev) hs of Inl e \<Rightarrow> False | Inr (hs', b) \<Rightarrow> b)"

text \<open>The three environment variables are set and not empty.\<close>

definition configured :: "world \<Rightarrow> bool" where
  "configured w =
     (truthy (process_env w ''MAILERSEND_TOKEN'') \<and> truthy (process_env w ''MAILERSEND_FROM'')
      \<and> truthy (process_env w ''MAILERSEND_TO''))"

text \<open>The times of a sequence of requests lie within one window: no one is ten minutes
  or more after another.\<close>

definition within_window :: "int list \<Rightarrow> bool" where
  "within_window ts = (\<forall>x \<in> set ts. \<forall>y \<in> set ts. y - x < WINDOW_MS)"

definition times :: "(world \<times> event) list \<Rightarrow> int list" where
  "times reqs = map (\<lambda>(w, ev). now w) reqs"

text \<open>The bucket of a client after requests at the times \<open>ts\<close>, in this order.\<close>

fun buckets :: "int list \<Rightarrow> int list \<Rightarrow> int list" where
  "buckets b [] = b"
| "buckets b (t # ts) = buckets (new_bucket t b) ts"

text \<open>A request of the client \<open>ip\<close>: a POST whose headers give this identifier.\<close>

definition post_from :: "string \<Rightarrow> world \<times> event \<Rightarrow> bool" where
  "post_from ip = (\<lambda>(w, ev). httpMethod ev = ''POST'' \<and> client_ip (headers ev) = Inr ip)"

text \<open>
  What a check of the validator finds, in the words of the specification. A trimmed field
  is blank (the check fails) or filled (it passes) when it is a string; the email
  matches or mismatches \<open>non-space@non-space.non-space\<close> when it converts to text. A
  value of another kind is neither: its check throws.
\<close>

definition nonspace :: "string \<Rightarrow> bool" where
  "nonspace s = (s \<noteq> [] \<and> (\<forall>c \<in> set s. \<not> is_space c))"

definition matches_email_pattern :: "string \<Rightarrow> bool" where
  "matches_email_pattern s =
     (\<exists>a b c. s = a @ ''@'' @ b @ ''.'' @ c \<and> nonspace a \<and> nonspace b \<and> nonspace c)"

definition blank :: "jsval \<Rightarrow> bool" where
  "blank v = (case v of JStr s \<Rightarrow> trim s = [] | _ \<Rightarrow> False)"

definition filled :: "jsval \<Rightarrow> bool" where
  "filled v = (case v of JStr s \<Rightarrow> trim s \<noteq> [] | _ \<Rightarrow> False)"

definition email_matches :: "jsval \<Rightarrow> bool" where
  "email_matches v = (case to_string v of Inl e \<Rightarrow> False | Inr t \<Rightarrow> matches_email_pattern t)"

definition email_mismatches :: "jsval \<Rightarrow> bool" where
  "email_mismatches v = (case to_string v of Inl e \<Rightarrow> False | Inr t \<Rightarrow> \<not> matches_email_pattern t)"

text \<open>The attachment the \<^verbatim>\<open>map\<close> callback makes of the entry \<open>a\<close> at index \<open>i\<close>.\<close>

definition attachment_of :: "nat \<Rightarrow> jsval \<Rightarrow> attachment" where
  "attachment_of i a =
     \<lparr>filename = (if truthy (own_prop a ''filename'') then own_prop a ''filename''
                   else JStr (''photo-'' @ show_nat (i + 1) @ ''.jpg'')),
      content = (if truthy (own_prop a ''base64'') then own_prop a ''base64'' else JStr [])\<rparr>"

text \<open>The attachments of the business email that an invocation sent, if it sent one.\<close>

definition sent_attachments :: "result \<Rightarrow> attachment list option" where
  "sent_attachments r = (case calls r of BusinessMail m # cs \<Rightarrow> Some (bm_attachments m) | _ \<Rightarrow> None)"

section \<open>Concrete requests\<close>

definition env_ok :: "string \<rightharpoonup> string" where
  "env_ok = [''MAILERSEND_TOKEN'' \<mapsto> ''mlsn_x'', ''MAILERSEND_FROM'' \<mapsto> ''no-reply@site.test'',
             ''MAILERSEND_TO'' \<mapsto> ''owner@site.test'']"

text \<open>A world at time \<open>t\<close> in which \<^verbatim>\<open>JSON.parse\<close> of the body gives \<open>p\<close>, the business
  email gets \<open>b\<close> and the confirmation gets \<open>c\<close>.\<close>

definition world_at :: "int \<Rightarrow> (string \<rightharpoonup> string) \<Rightarrow> jsval \<Rightarrow> fetch_result \<Rightarrow> fetch_result \<Rightarrow> world" where
  "world_at t e p b c =
     \<lparr>now = t, env = e, JSON_parse = (\<lambda>s. Some p), business_fetch = b, confirmation_fetch = c\<rparr>"

text \<open>A POST with the headers \<open>hs\<close>. Its body stands for the text of the payload: the
  world of the request says what \<^verbatim>\<open>JSON.parse\<close> makes of it.\<close>

definition post :: "jsval \<Rightarrow> event" where
  "post hs = \<lparr>httpMethod = ''POST'', headers = hs, body = Some ''{...}''\<rparr>"

definition from_ip :: jsval where
  "from_ip = JObj [(''x-forwarded-for'', JStr ''203.0.113.7, 10.0.0.1'')]"

definition valid_quote :: "(string \<times> jsval) list" where
  "valid_quote =
     [(''fullName'', JStr ''Ann Lee''), (''email'', JStr ''ann@mail.test''),
      (''phone'', JStr ''07000 000000''), (''postcode'', JStr ''AB1 2CD''),
      (''service'', JStr ''Shelves''), (''message'', JStr ''Two shelves, please.'')]"

text \<open>Six valid requests of one client, one a minute, and a seventh eleven minutes after
  the last.\<close>

definition request_at :: "int \<Rightarrow> world \<times> event" where
  "request_at t =
     (world_at t env_ok (JObj valid_quote) (Resolved 202 None) (Resolved 202 None), post from_ip)"

definition six_requests :: "(world \<times> event) list" where
  "six_requests = map request_at [0, 60000, 120000, 180000, 240000, 300000]"

text \<open>The store of a process that has seen five requests of this client.\<close>

definition busy_store :: hits where
  "busy_store = [''203.0.113.7'' \<mapsto> [0, 60000, 120000, 180000, 240000]]"

text \<open>A valid quote with seven attachments: some without file name, some without
  content, a string among them, and a \<^verbatim>\<open>null\<close> after the fifth.\<close>

definition seven_attachments :: "jsval list" where
  "seven_attachments =
     [JObj [(''filename'', JStr ''door.png''), (''base64'', JStr ''aGk='')],
      JObj [(''base64'', JStr ''Zm9v'')],
      JObj [(''filename'', JStr ''wall.jpg'')],
      JStr ''not an object'',
      JObj [(''filename'', JStr []), (''base64'', JStr ''YmFy'')],
      JNull,
      JObj [(''filename'', JStr ''seventh.png''), (''base64'', JStr ''YmF6'')]]"

definition quote_with_attachments :: jsval where
  "quote_with_attachments = JObj (valid_quote @ [(''attachments'', JArr seven_attachments)])"

text \<open>Payloads whose fields are not text: a name that is \<^verbatim>\<open>null\<close>, and a valid quote
  whose address is \<^verbatim>\<open>null\<close> beside a postcode.\<close>

definition null_name_quote :: jsval where
  "null_name_quote = JObj [(''fullName'', JNull)]"

definition null_address_quote :: jsval where
  "null_address_quote = JObj ((''address'', JNull) # valid_quote)"

text \<open>An email that is an object with a \<^verbatim>\<open>toString\<close> property, a valid quote whose
  only attachment is \<^verbatim>\<open>null\<close>, and one whose date is such an object.\<close>

definition object_email_quote :: jsval where
  "object_email_quote =
     JObj [(''fullName'', JStr ''Ann Lee''), (''email'', JObj [(''toString'', JBool True)])]"

definition null_attachment_quote :: jsval where
  "null_attachment_quote = JObj (valid_quote @ [(''attachments'', JArr [JNull])])"

definition object_date_quote :: jsval where
  "object_date_quote =
     JObj (valid_quote @ [(''date'', JObj [(''toString'', JBool True)]),
                          (''attachments'', JArr [JObj [(''base64'', JStr ''aGk='')]])])"

text \<open>Quotes that fail a check and hold a \<^verbatim>\<open>null\<close> phone after it: a blank name, and a
  name with an email without a domain. And a valid quote with an empty address beside
  its postcode.\<close>

definition blank_name_quote :: jsval where
  "blank_name_quote = JObj [(''fullName'', JStr ''  ''), (''phone'', JNull)]"

definition bad_email_quote :: jsval where
  "bad_email_quote =
     JObj [(''fullName'', JStr ''Ann Lee''), (''email'', JStr ''ann@mail''), (''phone'', JNull)]"

definition empty_address_quote :: jsval where
  "empty_address_quote = JObj ((''address'', JStr ''  '') # valid_quote)"

definition honeypot_quote :: jsval where
  "honeypot_quote = JObj ((''company'', JStr ''Acme'') # valid_quote)"

section \<open>The rate limiter\<close>

lemma handler_limited:
  assumes "httpMethod ev = ''POST''" and "limited w hs ev"
  shows "outcome (handler w hs ev) = Inr too_many_requests" and "calls (handler w hs ev) = []"
    and "logs (handler w hs ev) = []"
  using assms
  by (auto simp: handler_def limited_def too_many_requests_def split: sum.splits prod.splits)

lemma handler_not_limited:
  assumes "httpMethod ev = ''POST''" and "\<not> limited w hs ev"
  shows "outcome (handler w hs ev) = fst (submit w ev)"
    and "calls (handler w hs ev) = fst (snd (submit w ev))"
  using assms
  by (auto simp: handler_def limited_def split: sum.splits prod.splits bool.splits)

lemma rate_limit_ok:
  "client_ip hs = Inr ip \<Longrightarrow>
   rate_limit t hs st = Inr (st(ip \<mapsto> new_bucket t (bucket_of st ip)), RATE < length (new_bucket t (bucket_of st ip)))"
  by (simp add: rate_limit_def Let_def)

lemma rate_limit_error: "client_ip hs = Inl e \<Longrightarrow> rate_limit t hs st = Inl e"
  by (simp add: rate_limit_def)

lemma limited_iff:
  "client_ip (headers ev) = Inr ip \<Longrightarrow>
   limited w hs ev = (RATE < length (new_bucket (now w) (bucket_of hs ip)))"
  by (simp add: limited_def rate_limit_ok)

lemma handler_store:
  assumes "httpMethod ev = ''POST''" and "client_ip (headers ev) = Inr ip"
  shows "store (handler w hs ev) = hs(ip \<mapsto> new_bucket (now w) (bucket_of hs ip))"
  using assms
  by (auto simp: handler_def rate_limit_ok split: prod.splits bool.splits)

lemma dispatch_status:
  "fst (dispatch w a b c q) = Inr r \<Longrightarrow> statusCode r = 500 \<or> statusCode r = 200"
  by (auto simp: dispatch_def json_def Let_def split: sum.splits fetch_result.splits prod.splits if_splits)

lemma submit_status:
  "fst (submit w ev) = Inr r \<Longrightarrow> statusCode r \<in> {200, 400, 500}"
  by (auto simp: submit_def json_def Let_def split: sum.splits option.splits if_splits dest: dispatch_status)

lemma submit_not_429: "fst (submit w ev) \<noteq> Inr too_many_requests"
  using submit_status [of w ev too_many_requests]
  by (auto simp: too_many_requests_def json_def)


lemma buckets_within:
  "\<forall>c \<in> set (C @ ts). \<forall>t \<in> set ts. t - c < WINDOW_MS \<Longrightarrow>
   buckets (B @ C) ts = filter (\<lambda>x. \<forall>t \<in> set ts. t - x < WINDOW_MS) B @ C @ ts"
proof (induction ts arbitrary: B C)
  case Nil
  then show ?case by simp
next
  case (Cons t ts)
  have keep: "filter (\<lambda>t'. t - t' < WINDOW_MS) C = C"
    using Cons.prems by (auto intro: filter_True)
  have step: "new_bucket t (B @ C) = filter (\<lambda>t'. t - t' < WINDOW_MS) B @ (C @ [t])"
    by (simp add: new_bucket_def keep)
  have "\<forall>c \<in> set ((C @ [t]) @ ts). \<forall>u \<in> set ts. u - c < WINDOW_MS"
    using Cons.prems by auto
  from Cons.IH [OF this, of "filter (\<lambda>t'. t - t' < WINDOW_MS) B"]
  show ?case
    by (simp add: step conj_commute cong: conj_cong)
qed


lemma fst_serve_Cons: "fst (serve hs ((w, ev) # rest)) = fst (serve (store (handler w hs ev)) rest)"
  by (simp add: Let_def split: prod.splits)

lemma snd_serve_Cons:
  "snd (serve hs ((w, ev) # rest)) = handler w hs ev # snd (serve (store (handler w hs ev)) rest)"
  by (simp add: Let_def split: prod.splits)

lemma serve_store:
  "\<forall>r \<in> set reqs. post_from ip r \<Longrightarrow>
   bucket_of (fst (serve hs reqs)) ip = buckets (bucket_of hs ip) (times reqs)"
proof (induction reqs arbitrary: hs)
  case Nil
  then show ?case by (simp add: times_def)
next
  case (Cons r reqs)
  obtain w ev where r: "r = (w, ev)" by (cases r)
  from Cons.prems r have p: "httpMethod ev = ''POST''" "client_ip (headers ev) = Inr ip"
    by (auto simp: post_from_def)
  have "bucket_of (store (handler w hs ev)) ip = new_bucket (now w) (bucket_of hs ip)"
    by (simp add: handler_store [OF p] bucket_of_def)
  with Cons.IH [of "store (handler w hs ev)"] Cons.prems show ?case
    by (simp add: r times_def fst_serve_Cons del: serve.simps)
qed

lemma serve_append:
  "fst (serve hs (xs @ ys)) = fst (serve (fst (serve hs xs)) ys) \<and>
   snd (serve hs (xs @ ys)) = snd (serve hs xs) @ snd (serve (fst (serve hs xs)) ys)"
proof (induction xs arbitrary: hs)
  case Nil
  show ?case by simp
next
  case (Cons x xs)
  obtain w ev where x: "x = (w, ev)" by (cases x)
  show ?case
    using Cons.IH [of "store (handler w hs ev)"]
    by (simp add: x fst_serve_Cons snd_serve_Cons del: serve.simps)
qed

lemma buckets_subset: "x \<in> set (buckets b ts) \<Longrightarrow> x \<in> set b \<or> x \<in> set ts"
proof (induction ts arbitrary: b)
  case Nil
  then show ?case by simp
next
  case (Cons t ts)
  from Cons.IH [of "new_bucket t b"] Cons.prems show ?case
    by (auto simp: new_bucket_def)
qed

lemma new_bucket_expired:
  "\<forall>x \<in> set b. WINDOW_MS \<le> t - x \<Longrightarrow> new_bucket t b = [t]"
  by (induction b) (auto simp: new_bucket_def)


lemma buckets_append: "buckets b (xs @ ys) = buckets (buckets b xs) ys"
  by (induction xs arbitrary: b) auto

lemma length_serve: "length (snd (serve hs reqs)) = length reqs"
proof (induction reqs arbitrary: hs)
  case Nil
  show ?case by simp
next
  case (Cons r reqs)
  obtain w ev where r: "r = (w, ev)" by (cases r)
  show ?case using Cons.IH by (simp add: r snd_serve_Cons del: serve.simps)
qed

lemma serve_snoc_last:
  "snd (serve hs (xs @ [(w, ev)])) ! length xs = handler w (fst (serve hs xs)) ev"
proof -
  have "snd (serve hs (xs @ [(w, ev)])) = snd (serve hs xs) @ [handler w (fst (serve hs xs)) ev]"
    by (simp add: serve_append Let_def)
  then show ?thesis
    by (simp add: nth_append length_serve)
qed

lemma times_snoc: "times (xs @ [(w, ev)]) = times xs @ [now w]"
  by (simp add: times_def)

lemma buckets_length:
  assumes "within_window ts"
  shows "length ts \<le> length (buckets b ts)"
proof -
  have "\<forall>c \<in> set ([] @ ts). \<forall>t \<in> set ts. t - c < WINDOW_MS"
    using assms by (simp add: within_window_def)
  from buckets_within [OF this, of b] show ?thesis by simp
qed

lemma handler_outcome_iff:
  assumes "httpMethod ev = ''POST''" and "client_ip (headers ev) = Inr ip"
  shows "(outcome (handler w hs ev) = Inr too_many_requests) =
         (RATE < length (new_bucket (now w) (bucket_of hs ip)))"
proof (cases "limited w hs ev")
  case True
  then show ?thesis using assms by (simp add: handler_limited limited_iff)
next
  case False
  then show ?thesis using assms by (simp add: handler_not_limited submit_not_429 limited_iff)
qed

text \<open>
  Claim C2. On each call the rate limiter takes the bucket of the client (empty if there is
  none), keeps the timestamps less than ten minutes old, appends the current time and
  stores the bucket back; the request is rejected with 429 exactly when the new bucket
  has more than 5 entries. Of six requests of one client within ten minutes the sixth
  gets 429, and a request that comes once the window has passed is admitted again.
\<close>

theorem rate_limiter_window:
  assumes six: "length reqs = 6" "\<forall>r \<in> set reqs. post_from ip r" "within_window (times reqs)"
    and next_req: "post_from ip (w, ev)"
    and later: "\<forall>t \<in> set (bucket_of hs ip) \<union> set (times reqs). WINDOW_MS \<le> now w - t"
  shows "outcome (snd (serve hs reqs) ! 5) = Inr too_many_requests \<and>
         outcome (snd (serve hs (reqs @ [(w, ev)])) ! 6) = fst (submit w ev) \<and>
         outcome (snd (serve hs (reqs @ [(w, ev)])) ! 6) \<noteq> Inr too_many_requests \<and>
         (\<forall>hs'. store (handler w hs' ev) ip =
                  Some (filter (\<lambda>t. now w - t < WINDOW_MS) (bucket_of hs' ip) @ [now w]) \<and>
                (outcome (handler w hs' ev) = Inr too_many_requests) =
                  (5 < length (filter (\<lambda>t. now w - t < WINDOW_MS) (bucket_of hs' ip) @ [now w])))"
proof -
  from next_req have p: "httpMethod ev = ''POST''" "client_ip (headers ev) = Inr ip"
    by (auto simp: post_from_def)
  from six(1) have ne: "reqs \<noteq> []" by auto
  define xs where "xs = butlast reqs"
  obtain wl evl where l: "last reqs = (wl, evl)" by (cases "last reqs")
  have reqs: "reqs = xs @ [(wl, evl)]"
    using ne l by (simp add: xs_def flip: l)
  have len: "length xs = 5" using six(1) by (simp add: xs_def)
  from six(2) reqs have pl: "httpMethod evl = ''POST''" "client_ip (headers evl) = Inr ip"
    and pxs: "\<forall>r \<in> set xs. post_from ip r"
    by (auto simp: post_from_def)
  have sixth: "snd (serve hs reqs) ! 5 = handler wl (fst (serve hs xs)) evl"
    using serve_snoc_last [of hs xs wl evl] by (simp add: reqs len)
  have "new_bucket (now wl) (bucket_of (fst (serve hs xs)) ip) = buckets (bucket_of hs ip) (times reqs)"
    by (simp add: serve_store [OF pxs] reqs times_snoc buckets_append)
  moreover have "6 \<le> length (buckets (bucket_of hs ip) (times reqs))"
    using buckets_length [OF six(3), of "bucket_of hs ip"] six(1) by (simp add: times_def)
  ultimately have c1: "outcome (snd (serve hs reqs) ! 5) = Inr too_many_requests"
    by (simp add: sixth handler_outcome_iff [OF pl] RATE_def)
  have seventh: "snd (serve hs (reqs @ [(w, ev)])) ! 6 = handler w (fst (serve hs reqs)) ev"
    using serve_snoc_last [of hs reqs w ev] by (simp add: six(1))
  have "\<forall>x \<in> set (bucket_of (fst (serve hs reqs)) ip). WINDOW_MS \<le> now w - x"
    using later buckets_subset [of _ "bucket_of hs ip" "times reqs"]
    by (auto simp: serve_store [OF six(2)])
  then have nb: "new_bucket (now w) (bucket_of (fst (serve hs reqs)) ip) = [now w]"
    by (rule new_bucket_expired)
  have "\<not> limited w (fst (serve hs reqs)) ev"
    by (simp add: limited_iff [OF p(2)] nb RATE_def)
  then have c2: "outcome (snd (serve hs (reqs @ [(w, ev)])) ! 6) = fst (submit w ev)"
    by (simp add: seventh handler_not_limited [OF p(1)])
  have c3: "outcome (snd (serve hs (reqs @ [(w, ev)])) ! 6) \<noteq> Inr too_many_requests"
    by (simp add: c2 submit_not_429)
  have c4: "store (handler w hs' ev) ip =
              Some (filter (\<lambda>t. now w - t < WINDOW_MS) (bucket_of hs' ip) @ [now w]) \<and>
            (outcome (handler w hs' ev) = Inr too_many_requests) =
              (5 < length (filter (\<lambda>t. now w - t < WINDOW_MS) (bucket_of hs' ip) @ [now w]))" for hs'
    using handler_outcome_iff [OF p, of w hs']
    by (simp add: handler_store [OF p] new_bucket_def RATE_def)
  from c1 c2 c3 c4 show ?thesis by blast
qed

lemma client_ip_from_ip: "client_ip from_ip = Inr ''203.0.113.7''"
  by (simp add: from_ip_def client_ip_def get_prop_def or_else_def split_first_def trim_def is_space_def)

lemma post_from_request_at: "post_from ''203.0.113.7'' (request_at t)"
  by (simp add: post_from_def request_at_def post_def client_ip_from_ip)

lemma now_request_at: "now (fst (request_at t)) = t"
  by (simp add: request_at_def world_at_def)

theorem rate_limiter_window_witness:
  "outcome (snd (serve Map.empty six_requests) ! 5) = Inr too_many_requests \<and>
   outcome (snd (serve Map.empty (six_requests @ [request_at 960000])) ! 6)
     \<noteq> Inr too_many_requests"
proof -
  have h1: "length six_requests = 6" by (simp add: six_requests_def)
  have h2: "\<forall>r \<in> set six_requests. post_from ''203.0.113.7'' r"
    by (simp add: six_requests_def post_from_request_at)
  have t: "times six_requests = [0, 60000, 120000, 180000, 240000, 300000]"
    by (simp add: six_requests_def times_def request_at_def world_at_def)
  have h3: "within_window (times six_requests)"
    by (simp add: t within_window_def WINDOW_MS_def)
  obtain w ev where r: "request_at 960000 = (w, ev)" by (cases "request_at 960000")
  have nw: "now w = 960000" using now_request_at [of 960000] by (simp add: r)
  have h4: "post_from ''203.0.113.7'' (w, ev)"
    using post_from_request_at [of 960000] by (simp add: r)
  have h5: "\<forall>t \<in> set (bucket_of Map.empty ''203.0.113.7'') \<union> set (times six_requests).
              WINDOW_MS \<le> now w - t"
    by (simp add: t nw bucket_of_def WINDOW_MS_def)
  from rate_limiter_window [OF h1 h2 h3 h4 h5] show ?thesis
    unfolding r by blast
qed

lemma submit_headers: "submit w (ev\<lparr>headers := h\<rparr>) = submit w ev"
proof -
  have bt: "body_text (ev\<lparr>headers := h\<rparr>) = body_text ev" by (simp add: body_text_def)
  show ?thesis unfolding submit_def bt by (rule refl)
qed

lemma handler_limiter_error:
  assumes "httpMethod ev = ''POST''" and "rate_limit (now w) (headers ev) hs = Inl e"
  shows "handler w hs ev =
           \<lparr>outcome = fst (submit w ev), store = hs, calls = fst (snd (submit w ev)),
            logs = Warn ''Rate limit check failed:'' # snd (snd (submit w ev))\<rparr>"
  using assms by (simp add: handler_def split: prod.splits)

text \<open>
  Claim C9. When the rate limiter runs without exception, the current time is appended to
  the bucket of the client before the limit is checked: the check counts the new entry, a
  request answered with 429 is in the stored bucket all the same, and a later request of
  the same client within the window finds it there.
\<close>

theorem rejected_request_is_recorded:
  assumes "httpMethod ev = ''POST''" and "client_ip (headers ev) = Inr ip"
  shows "bucket_of (store (handler w hs ev)) ip =
           filter (\<lambda>t. now w - t < WINDOW_MS) (bucket_of hs ip) @ [now w] \<and>
         (outcome (handler w hs ev) = Inr too_many_requests) =
           (5 < length (bucket_of (store (handler w hs ev)) ip)) \<and>
         (\<forall>w' ev'. post_from ip (w', ev') \<and> now w' - now w < WINDOW_MS \<longrightarrow>
            now w \<in> set (bucket_of (store (handler w' (store (handler w hs ev)) ev')) ip) \<and>
            2 \<le> length (bucket_of (store (handler w' (store (handler w hs ev)) ev')) ip))"
proof -
  have b: "bucket_of (store (handler w hs ev)) ip = new_bucket (now w) (bucket_of hs ip)"
    by (simp add: handler_store [OF assms] bucket_of_def)
  have c1: "bucket_of (store (handler w hs ev)) ip =
              filter (\<lambda>t. now w - t < WINDOW_MS) (bucket_of hs ip) @ [now w]"
    by (simp add: b new_bucket_def)
  have c2: "(outcome (handler w hs ev) = Inr too_many_requests) =
              (5 < length (bucket_of (store (handler w hs ev)) ip))"
    using handler_outcome_iff [OF assms, of w hs] by (simp add: b RATE_def)
  have c3: "now w \<in> set (bucket_of (store (handler w' (store (handler w hs ev)) ev')) ip) \<and>
            2 \<le> length (bucket_of (store (handler w' (store (handler w hs ev)) ev')) ip)"
    if "post_from ip (w', ev')" and "now w' - now w < WINDOW_MS" for w' ev'
  proof -
    from that(1) have p: "httpMethod ev' = ''POST''" "client_ip (headers ev') = Inr ip"
      by (auto simp: post_from_def)
    have "bucket_of (store (handler w' (store (handler w hs ev)) ev')) ip =
            new_bucket (now w') (new_bucket (now w) (bucket_of hs ip))"
      using b by (simp add: handler_store [OF p] bucket_of_def)
    with that(2) show ?thesis by (simp add: new_bucket_def)
  qed
  from c1 c2 c3 show ?thesis by blast
qed

theorem rejected_request_is_recorded_witness:
  "outcome (handler (fst (request_at 300000)) busy_store (post from_ip)) = Inr too_many_requests \<and>
   bucket_of (store (handler (fst (request_at 300000)) busy_store (post from_ip))) ''203.0.113.7'' =
     [0, 60000, 120000, 180000, 240000, 300000]"
proof -
  have h1: "httpMethod (post from_ip) = ''POST''" by (simp add: post_def)
  have h2: "client_ip (headers (post from_ip)) = Inr ''203.0.113.7''"
    by (simp add: post_def client_ip_from_ip)
  have b: "bucket_of busy_store ''203.0.113.7'' = [0, 60000, 120000, 180000, 240000]"
    by (simp add: busy_store_def bucket_of_def)
  from rejected_request_is_recorded [OF h1 h2, of "fst (request_at 300000)" busy_store]
  show ?thesis
    by (simp add: b now_request_at WINDOW_MS_def)
qed

text \<open>
  Claim C7. An exception inside the rate-limiting step (headers of an unexpected shape)
  does not block a POST request: it is caught and logged, the store is left as it was,
  and the handler goes on as for an admitted request, with the outcome and the provider
  calls of a request that differs only in its headers and is not rejected.
\<close>

theorem limiter_failure_admits:
  assumes "httpMethod ev = ''POST''" and "rate_limit (now w) (headers ev) hs = Inl e"
  shows "outcome (handler w hs ev) = fst (submit w ev) \<and>
         outcome (handler w hs ev) \<noteq> Inr too_many_requests \<and>
         calls (handler w hs ev) = fst (snd (submit w ev)) \<and>
         logs (handler w hs ev) = Warn ''Rate limit check failed:'' # snd (snd (submit w ev)) \<and>
         store (handler w hs ev) = hs \<and>
         (\<forall>h hs'. \<not> limited w hs' (ev\<lparr>headers := h\<rparr>) \<longrightarrow>
            outcome (handler w hs' (ev\<lparr>headers := h\<rparr>)) = outcome (handler w hs ev) \<and>
            calls (handler w hs' (ev\<lparr>headers := h\<rparr>)) = calls (handler w hs ev))"
proof -
  note h = handler_limiter_error [OF assms]
  have "outcome (handler w hs' (ev\<lparr>headers := h\<rparr>)) = fst (submit w ev) \<and>
        calls (handler w hs' (ev\<lparr>headers := h\<rparr>)) = fst (snd (submit w ev))"
    if "\<not> limited w hs' (ev\<lparr>headers := h\<rparr>)" for h hs'
    using handler_not_limited [of "ev\<lparr>headers := h\<rparr>" w hs'] that assms(1)
    by (simp add: submit_headers)
  then show ?thesis
    by (simp add: h submit_not_429)
qed

lemmas eval_defs =
  request_at_def world_at_def post_def submit_def process_env_def env_ok_def
  body_text_def get_prop_def valid_quote_def destructure_def field_def or_else_def
  missing_def ebind_def email_test_def email_pattern_def trim_def is_space_def
  dispatch_def build_content_def safe_def msAttachments_def ok_def confirmation_def
  confirmation_body_def opt_prop_def Let_def provider_data_def br_def

theorem limiter_failure_admits_witness:
  "outcome (handler (fst (request_at 300000)) busy_store (post JUndefined))
     = Inr (json 200 (JObj [(''ok'', JBool True), (''id'', JStr ''sent'')])) \<and>
   logs (handler (fst (request_at 300000)) busy_store (post JUndefined))
     = [Warn ''Rate limit check failed:'']"
proof -
  have h1: "httpMethod (post JUndefined) = ''POST''" by (simp add: post_def)
  have h2: "rate_limit (now (fst (request_at 300000))) (headers (post JUndefined)) busy_store
              = Inl TypeError"
    by (simp add: post_def rate_limit_def client_ip_def get_prop_def)
  have s: "fst (submit (fst (request_at 300000)) (post JUndefined)) =
             Inr (json 200 (JObj [(''ok'', JBool True), (''id'', JStr ''sent'')]))"
          "snd (snd (submit (fst (request_at 300000)) (post JUndefined))) = []"
    by (simp_all add: eval_defs)
  from limiter_failure_admits [OF h1 h2] show ?thesis
    by (simp add: s)
qed

section \<open>The environment check\<close>

lemma submit_not_configured:
  "\<not> configured w \<Longrightarrow> submit w ev = (Inr not_configured, [], [])"
  by (auto simp: submit_def configured_def not_configured_def Let_def)

text \<open>
  Claim C3, as the code has it. The rate limiter is step 0 and runs before the
  environment is read. For a POST request with one of the three variables absent or
  empty, the handler answers 429 when the rate limiter rejects the request and 500
  otherwise; in both cases the request is recorded in the bucket of its client. The 500
  comes before the body is parsed, so before the honeypot and the validation: the
  outcome is the same for every body, and no provider call is made.
\<close>

theorem missing_env_after_rate_limit:
  assumes "httpMethod ev = ''POST''" and "\<not> configured w"
  shows "outcome (handler w hs ev) = Inr (if limited w hs ev then too_many_requests else not_configured) \<and>
         calls (handler w hs ev) = [] \<and>
         (\<forall>ip. client_ip (headers ev) = Inr ip \<longrightarrow>
            bucket_of (store (handler w hs ev)) ip =
              filter (\<lambda>t. now w - t < WINDOW_MS) (bucket_of hs ip) @ [now w]) \<and>
         (\<forall>b parse. outcome (handler (w\<lparr>JSON_parse := parse\<rparr>) hs (ev\<lparr>body := b\<rparr>)) =
            outcome (handler w hs ev))"
proof -
  have c1: "outcome (handler w hs ev) = Inr (if limited w hs ev then too_many_requests else not_configured)
              \<and> calls (handler w hs ev) = []"
    using assms
    by (cases "limited w hs ev") (simp_all add: handler_limited handler_not_limited submit_not_configured)
  have c2: "bucket_of (store (handler w hs ev)) ip =
              filter (\<lambda>t. now w - t < WINDOW_MS) (bucket_of hs ip) @ [now w]"
    if "client_ip (headers ev) = Inr ip" for ip
    by (simp add: handler_store [OF assms(1) that] bucket_of_def new_bucket_def)
  have c3: "outcome (handler (w\<lparr>JSON_parse := parse\<rparr>) hs (ev\<lparr>body := b\<rparr>)) = outcome (handler w hs ev)"
    for b parse
  proof -
    let ?w = "w\<lparr>JSON_parse := parse\<rparr>" and ?ev = "ev\<lparr>body := b\<rparr>"
    have p: "httpMethod ?ev = ''POST''" using assms(1) by simp
    have n: "\<not> configured ?w" using assms(2) by (simp add: configured_def process_env_def)
    have l: "limited ?w hs ?ev = limited w hs ev" by (simp add: limited_def)
    show ?thesis
      using c1 p n l
      by (cases "limited w hs ev") (simp_all add: handler_limited handler_not_limited submit_not_configured)
  qed
  from c1 c2 c3 show ?thesis by blast
qed

theorem missing_env_after_rate_limit_witness:
  "outcome (handler (world_at 300000 Map.empty (JObj valid_quote) Rejected Rejected) Map.empty (post from_ip))
     = Inr not_configured"
proof -
  have h1: "httpMethod (post from_ip) = ''POST''" by (simp add: post_def)
  have h2: "\<not> configured (world_at 300000 Map.empty (JObj valid_quote) Rejected Rejected)"
    by (simp add: configured_def world_at_def process_env_def)
  have l: "\<not> limited (world_at 300000 Map.empty (JObj valid_quote) Rejected Rejected) Map.empty (post from_ip)"
    using limited_iff [of "post from_ip" "''203.0.113.7''"]
    by (simp add: post_def client_ip_from_ip new_bucket_def bucket_of_def RATE_def)
  from missing_env_after_rate_limit [OF h1 h2] show ?thesis
    by (simp add: l)
qed

text \<open>
  Claim C3 as stated puts the 500 before rate limiting. With no variable set, the sixth
  request of a client within the window gets 429, not 500.
\<close>

theorem missing_env_rate_limited_counterexample:
  "\<not> configured (world_at 300000 Map.empty (JObj valid_quote) Rejected Rejected) \<and>
   httpMethod (post from_ip) = ''POST'' \<and>
   outcome (handler (world_at 300000 Map.empty (JObj valid_quote) Rejected Rejected) busy_store (post from_ip))
     = Inr too_many_requests \<and>
   statusCode too_many_requests = 429"
  by (simp add: configured_def world_at_def process_env_def post_def handler_def rate_limit_def
      client_ip_from_ip new_bucket_def bucket_of_def busy_store_def RATE_def WINDOW_MS_def
      too_many_requests_def json_def)

section \<open>The honeypot\<close>

lemma truthy_own_prop_not_nullish: "truthy (own_prop p k) \<Longrightarrow> \<not> nullish p"
  by (cases p) auto

lemma submit_honeypot:
  assumes "configured w" and "JSON_parse w (body_text ev) = Some p" and "truthy (own_prop p ''company'')"
  shows "submit w ev = (Inr skipped, [], [])"
  using assms truthy_own_prop_not_nullish [OF assms(3)]
  by (simp add: submit_def configured_def skipped_def get_prop_def Let_def)

text \<open>
  Claim C4, as the code has it. The honeypot is checked after the rate limiter and the
  environment check. For a POST request that the rate limiter does not reject, with the
  three environment variables set, whose payload has a truthy \<^verbatim>\<open>company\<close> field, the
  response is 200 with body \<^verbatim>\<open>{ok: true, skipped: true}\<close> and no provider call is made,
  whatever the other fields are.
\<close>

theorem honeypot_drops_request:
  assumes "httpMethod ev = ''POST''" and "\<not> limited w hs ev" and "configured w"
    and "JSON_parse w (body_text ev) = Some p" and "truthy (own_prop p ''company'')"
  shows "outcome (handler w hs ev) = Inr skipped \<and> calls (handler w hs ev) = []"
  using assms by (simp add: handler_not_limited submit_honeypot)

theorem honeypot_drops_request_witness:
  "outcome (handler (world_at 0 env_ok (JObj [(''company'', JStr ''Acme'')]) Rejected Rejected)
      Map.empty (post from_ip)) = Inr skipped \<and>
   calls (handler (world_at 0 env_ok (JObj [(''company'', JStr ''Acme'')]) Rejected Rejected)
      Map.empty (post from_ip)) = []"
proof -
  let ?w = "world_at 0 env_ok (JObj [(''company'', JStr ''Acme'')]) Rejected Rejected"
  have h1: "httpMethod (post from_ip) = ''POST''" by (simp add: post_def)
  have h2: "\<not> limited ?w Map.empty (post from_ip)"
    using limited_iff [of "post from_ip" "''203.0.113.7''"]
    by (simp add: post_def client_ip_from_ip new_bucket_def bucket_of_def RATE_def)
  have h3: "configured ?w"
    by (simp add: configured_def world_at_def process_env_def env_ok_def)
  have h4: "JSON_parse ?w (body_text (post from_ip)) = Some (JObj [(''company'', JStr ''Acme'')])"
    by (simp add: world_at_def)
  have h5: "truthy (own_prop (JObj [(''company'', JStr ''Acme'')]) ''company'')" by simp
  from honeypot_drops_request [OF h1 h2 h3 h4 h5] show ?thesis .
qed

text \<open>
  Claim C4 as stated promises 200 for every POST with a truthy \<^verbatim>\<open>company\<close> field. The
  sixth such request of a client within the window gets 429.
\<close>

theorem honeypot_rate_limited_counterexample:
  "httpMethod (post from_ip) = ''POST'' \<and>
   JSON_parse (world_at 300000 env_ok honeypot_quote Rejected Rejected) (body_text (post from_ip))
     = Some honeypot_quote \<and>
   truthy (own_prop honeypot_quote ''company'') \<and>
   outcome (handler (world_at 300000 env_ok honeypot_quote Rejected Rejected) busy_store (post from_ip))
     = Inr too_many_requests \<and>
   statusCode too_many_requests = 429"
  by (simp add: world_at_def post_def honeypot_quote_def handler_def rate_limit_def
      client_ip_from_ip new_bucket_def bucket_of_def busy_store_def RATE_def WINDOW_MS_def
      too_many_requests_def json_def)


section \<open>The provider calls\<close>

lemma handler_called:
  assumes "calls (handler w hs ev) \<noteq> []"
  shows "httpMethod ev = ''POST''" and "\<not> limited w hs ev"
    and "outcome (handler w hs ev) = fst (submit w ev)"
    and "calls (handler w hs ev) = fst (snd (submit w ev))"
proof -
  show p: "httpMethod ev = ''POST''"
    using assms by (auto simp: handler_def split: if_splits)
  show l: "\<not> limited w hs ev"
    using assms handler_limited(2) [OF p] by blast
  show "outcome (handler w hs ev) = fst (submit w ev)"
    and "calls (handler w hs ev) = fst (snd (submit w ev))"
    using handler_not_limited [OF p l] by simp_all
qed

lemma submit_called:
  assumes "fst (snd (submit w ev)) \<noteq> []"
  shows "\<exists>p. JSON_parse w (body_text ev) = Some p \<and> configured w \<and> \<not> nullish p \<and>
             \<not> truthy (own_prop p ''company'') \<and> missing (destructure p) = Inr None \<and>
             submit w ev = dispatch w (process_env w ''MAILERSEND_TOKEN'')
               (process_env w ''MAILERSEND_FROM'') (process_env w ''MAILERSEND_TO'') (destructure p)"
  using assms
  by (auto simp: submit_def configured_def get_prop_def Let_def
      split: if_splits option.splits sum.splits)

lemma dispatch_called:
  assumes "fst (snd (dispatch w a b c q)) \<noteq> []"
  shows "\<exists>c' atts. build_content q = Inr c' \<and> msAttachments (attachments q) = Inr atts"
  using assms by (auto simp: dispatch_def split: sum.splits)

lemma dispatch_resolved:
  assumes "build_content q = Inr c'" and "msAttachments (attachments q) = Inr atts"
    and "business_fetch w = Resolved st js"
  shows "fst (dispatch w a b c q) =
           Inr (if ok st
                then json 200 (JObj [(''ok'', JBool True),
                       (''id'', or_else (opt_prop (provider_data js) ''message_id'') (JStr ''sent''))])
                else json 500 (error_body
                       (or_else (opt_prop (provider_data js) ''message'')
                          (JStr ''Email send failed. Please try again or call 07305 848484.''))))"
  using assms by (simp add: dispatch_def Let_def split: prod.splits)

lemma handler_reaches_dispatch:
  assumes "calls (handler w hs ev) \<noteq> []"
  shows "\<exists>p c' atts. JSON_parse w (body_text ev) = Some p \<and>
           build_content (destructure p) = Inr c' \<and>
           msAttachments (attachments (destructure p)) = Inr atts \<and>
           submit w ev = dispatch w (process_env w ''MAILERSEND_TOKEN'')
             (process_env w ''MAILERSEND_FROM'') (process_env w ''MAILERSEND_TO'') (destructure p)"
proof -
  note h = handler_called [OF assms]
  from h(4) assms have ne: "fst (snd (submit w ev)) \<noteq> []" by simp
  from submit_called [OF ne] obtain p where
    p: "JSON_parse w (body_text ev) = Some p"
    and s: "submit w ev = dispatch w (process_env w ''MAILERSEND_TOKEN'')
          (process_env w ''MAILERSEND_FROM'') (process_env w ''MAILERSEND_TO'') (destructure p)"
    by blast
  from ne s dispatch_called obtain c' atts where
    "build_content (destructure p) = Inr c'" "msAttachments (attachments (destructure p)) = Inr atts"
    by metis
  with p s show ?thesis by blast
qed

lemma handler_resolved:
  assumes "calls (handler w hs ev) \<noteq> []" and "business_fetch w = Resolved st js"
  shows "outcome (handler w hs ev) =
           Inr (if ok st
                then json 200 (JObj [(''ok'', JBool True),
                       (''id'', if truthy (opt_prop (provider_data js) ''message_id'')
                                then opt_prop (provider_data js) ''message_id'' else JStr ''sent'')])
                else json 500 (JObj [(''error'',
                        if truthy (opt_prop (provider_data js) ''message'')
                        then opt_prop (provider_data js) ''message''
                        else JStr ''Email send failed. Please try again or call 07305 848484.'')]))"
proof -
  from handler_reaches_dispatch [OF assms(1)] obtain p c' atts where
    "build_content (destructure p) = Inr c'" "msAttachments (attachments (destructure p)) = Inr atts"
    and s: "submit w ev = dispatch w (process_env w ''MAILERSEND_TOKEN'')
          (process_env w ''MAILERSEND_FROM'') (process_env w ''MAILERSEND_TO'') (destructure p)"
    by blast
  from dispatch_resolved [OF this(1,2) assms(2)] show ?thesis
    by (simp add: handler_called(3) [OF assms(1)] s or_else_def error_body_def)
qed

lemma business_call_made:
  assumes "httpMethod ev = ''POST''" and "\<not> limited w hs ev" and "configured w"
    and "JSON_parse w (body_text ev) = Some p" and "\<not> nullish p"
    and "\<not> truthy (own_prop p ''company'')" and "missing (destructure p) = Inr None"
    and "build_content (destructure p) = Inr c" and "msAttachments (attachments (destructure p)) = Inr atts"
  shows "calls (handler w hs ev) \<noteq> []"
proof -
  have "submit w ev = dispatch w (process_env w ''MAILERSEND_TOKEN'')
          (process_env w ''MAILERSEND_FROM'') (process_env w ''MAILERSEND_TO'') (destructure p)"
    using assms(3-7) by (simp add: submit_def configured_def get_prop_def Let_def)
  moreover have "fst (snd (dispatch w a b r (destructure p))) \<noteq> []" for a b r
    using assms(8,9)
    by (simp add: dispatch_def Let_def split: fetch_result.splits prod.splits)
  ultimately show ?thesis
    by (simp add: handler_not_limited(2) [OF assms(1,2)])
qed

text \<open>
  Claim C5. When a valid, admitted payload reaches the provider and the business call
  resolves: with a 2xx status the handler returns 200 with \<^verbatim>\<open>{ok: true, id}\<close>, where
  \<open>id\<close> is the \<^verbatim>\<open>message_id\<close> of the provider's answer when it has a truthy one and
  \<^verbatim>\<open>"sent"\<close> otherwise; with any other status it returns 500 whose \<open>error\<close> is the
  \<^verbatim>\<open>message\<close> of the answer when it has a truthy one and the generic text otherwise.
\<close>

theorem provider_result_shapes_response:
  assumes "calls (handler w hs ev) \<noteq> []" and "business_fetch w = Resolved st js"
  shows "(ok st \<longrightarrow>
            outcome (handler w hs ev) =
              Inr (json 200 (JObj [(''ok'', JBool True),
                     (''id'', if truthy (opt_prop (provider_data js) ''message_id'')
                              then opt_prop (provider_data js) ''message_id'' else JStr ''sent'')]))) \<and>
         (\<not> ok st \<longrightarrow>
            outcome (handler w hs ev) =
              Inr (json 500 (JObj [(''error'',
                     if truthy (opt_prop (provider_data js) ''message'')
                     then opt_prop (provider_data js) ''message''
                     else JStr ''Email send failed. Please try again or call 07305 848484.'')])))"
  using handler_resolved [OF assms] by simp

lemma limited_first_request: "\<not> limited w Map.empty (post from_ip)"
  using limited_iff [of "post from_ip" "''203.0.113.7''" w Map.empty]
  by (simp add: post_def client_ip_from_ip new_bucket_def bucket_of_def RATE_def)

lemma calls_valid_quote:
  "calls (handler (world_at t env_ok (JObj valid_quote) (Resolved st js) c) Map.empty (post from_ip)) \<noteq> []"
proof -
  have "httpMethod (post from_ip) = ''POST''" by (simp add: post_def)
  from handler_not_limited(2) [OF this limited_first_request] show ?thesis
    by (simp add: eval_defs split: prod.splits)
qed

theorem provider_result_shapes_response_witness:
  "outcome (handler (world_at 0 env_ok (JObj valid_quote)
       (Resolved 202 (Some (JObj [(''message_id'', JStr ''abc'')]))) Rejected) Map.empty (post from_ip))
     = Inr (json 200 (JObj [(''ok'', JBool True), (''id'', JStr ''abc'')])) \<and>
   outcome (handler (world_at 0 env_ok (JObj valid_quote)
       (Resolved 422 (Some (JObj [(''message'', JStr ''bad from'')]))) Rejected) Map.empty (post from_ip))
     = Inr (json 500 (JObj [(''error'', JStr ''bad from'')])) \<and>
   outcome (handler (world_at 0 env_ok (JObj valid_quote) (Resolved 202 None) Rejected)
       Map.empty (post from_ip))
     = Inr (json 200 (JObj [(''ok'', JBool True), (''id'', JStr ''sent'')]))"
proof -
  have b: "business_fetch (world_at 0 env_ok (JObj valid_quote) (Resolved st js) c) = Resolved st js"
    for st js c by (simp add: world_at_def)
  show ?thesis
    using provider_result_shapes_response
        [OF calls_valid_quote [of 0 202 "Some (JObj [(''message_id'', JStr ''abc'')])" Rejected] b]
      provider_result_shapes_response
        [OF calls_valid_quote [of 0 422 "Some (JObj [(''message'', JStr ''bad from'')])" Rejected] b]
      provider_result_shapes_response [OF calls_valid_quote [of 0 202 None Rejected] b]
    by (simp add: ok_def provider_data_def opt_prop_def)
qed


lemma safe_all_Inr: "safe_all vs = Inr r \<Longrightarrow> v \<in> set vs \<Longrightarrow> \<exists>s. safe v = Inr s"
  by (induction vs arbitrary: r) (auto simp: ebind_def split: sum.splits)

lemma build_content_safe:
  assumes "build_content q = Inr c"
  shows "\<exists>s. safe (fullName q) = Inr s" and "\<exists>s. safe (service q) = Inr s"
    and "\<exists>s. safe (address q) = Inr s" and "\<exists>s. safe (date q) = Inr s"
proof -
  from assms obtain ts
    where ts: "safe_all [fullName q, phone q, email q, address q, service q, date q, message q] = Inr ts"
    by (auto simp: build_content_def ebind_def split: sum.splits)
  show "\<exists>s. safe (fullName q) = Inr s" by (rule safe_all_Inr [OF ts]) simp
  show "\<exists>s. safe (service q) = Inr s" by (rule safe_all_Inr [OF ts]) simp
  show "\<exists>s. safe (address q) = Inr s" by (rule safe_all_Inr [OF ts]) simp
  show "\<exists>s. safe (date q) = Inr s" by (rule safe_all_Inr [OF ts]) simp
qed

lemma to_string_or_else: "\<exists>s. safe x = Inr s \<Longrightarrow> \<exists>s. to_string (or_else x (JStr d)) = Inr s"
  by (auto simp: safe_def or_else_def)

lemma confirmation_body_ok:
  assumes "build_content q = Inr c"
  shows "\<exists>m. confirmation_body a b q = Inr m"
proof -
  note s = build_content_safe [OF assms]
  obtain n n' sv ad dt where
    "to_string (or_else (fullName q) (JStr [])) = Inr n"
    "to_string (or_else (fullName q) (JStr ''there'')) = Inr n'"
    "to_string (or_else (service q) (JStr ''Handyman service'')) = Inr sv"
    "to_string (or_else (address q) (JStr [])) = Inr ad"
    "to_string (or_else (date q) (JStr ''Not specified'')) = Inr dt"
    using to_string_or_else [OF s(1)] to_string_or_else [OF s(2)]
      to_string_or_else [OF s(3)] to_string_or_else [OF s(4)]
    by metis
  then show ?thesis
    by (simp add: confirmation_body_def ebind_def)
qed

lemma dispatch_succeeded:
  assumes "build_content q = Inr c'" and "msAttachments (attachments q) = Inr atts"
    and "business_fetch w = Resolved st js" and "ok st"
  shows "\<exists>bm cm. snd (dispatch w a b r q) =
           ([BusinessMail bm, ConfirmationMail cm],
            if confirmation_fetch w = Rejected then [Warn ''Confirmation email failed:''] else [])"
proof -
  from confirmation_body_ok [OF assms(1)] obtain m where "confirmation_body a b q = Inr m"
    by blast
  with assms show ?thesis
    by (auto simp: dispatch_def confirmation_def Let_def split: fetch_result.splits)
qed

lemma dispatch_confirmation_fetch:
  "fst (dispatch (w\<lparr>confirmation_fetch := c\<rparr>) a b r q) = fst (dispatch w a b r q)"
  "fst (snd (dispatch (w\<lparr>confirmation_fetch := c\<rparr>) a b r q)) = fst (snd (dispatch w a b r q))"
  by (auto simp: dispatch_def confirmation_def Let_def
      split: sum.splits fetch_result.splits prod.splits)

lemma submit_confirmation_fetch:
  "fst (submit (w\<lparr>confirmation_fetch := c\<rparr>) ev) = fst (submit w ev)"
  "fst (snd (submit (w\<lparr>confirmation_fetch := c\<rparr>) ev)) = fst (snd (submit w ev))"
  by (auto simp: submit_def process_env_def Let_def dispatch_confirmation_fetch
      split: sum.splits option.splits)

lemma handler_store_any:
  "store (handler w hs ev) =
     (if httpMethod ev = ''POST''
      then (case rate_limit (now w) (headers ev) hs of Inl e \<Rightarrow> hs | Inr (hs', b) \<Rightarrow> hs')
      else hs)"
  by (auto simp: handler_def split: sum.splits prod.splits bool.splits)

lemma handler_confirmation_fetch:
  "outcome (handler (w\<lparr>confirmation_fetch := c\<rparr>) hs ev) = outcome (handler w hs ev)"
  "calls (handler (w\<lparr>confirmation_fetch := c\<rparr>) hs ev) = calls (handler w hs ev)"
  "store (handler (w\<lparr>confirmation_fetch := c\<rparr>) hs ev) = store (handler w hs ev)"
proof -
  let ?w = "w\<lparr>confirmation_fetch := c\<rparr>"
  have l: "limited ?w hs ev = limited w hs ev" by (simp add: limited_def)
  show "store (handler ?w hs ev) = store (handler w hs ev)"
    by (simp add: handler_store_any)
  show "outcome (handler ?w hs ev) = outcome (handler w hs ev)"
  proof (cases "httpMethod ev = ''POST''")
    case True
    then show ?thesis
      using l by (cases "limited w hs ev")
        (simp_all add: handler_limited handler_not_limited submit_confirmation_fetch)
  next
    case False
    then show ?thesis by (simp add: handler_def)
  qed
  show "calls (handler ?w hs ev) = calls (handler w hs ev)"
  proof (cases "httpMethod ev = ''POST''")
    case True
    then show ?thesis
      using l by (cases "limited w hs ev")
        (simp_all add: handler_limited handler_not_limited submit_confirmation_fetch)
  next
    case False
    then show ?thesis by (simp add: handler_def)
  qed
qed

lemma handler_logs:
  assumes "httpMethod ev = ''POST''" and "\<not> limited w hs ev"
  shows "logs (handler w hs ev) =
           (case rate_limit (now w) (headers ev) hs of
              Inl e \<Rightarrow> [Warn ''Rate limit check failed:''] | Inr x \<Rightarrow> [])
           @ snd (snd (submit w ev))"
  using assms
  by (auto simp: handler_def limited_def split: sum.splits prod.splits bool.splits)


section \<open>Attachments\<close>

lemma convert_length: "convert i ys = Inr r \<Longrightarrow> length r = length ys"
  by (induction ys arbitrary: i r) (auto simp: ebind_def split: sum.splits)

lemma convert_nth:
  "convert i ys = Inr r \<Longrightarrow> k < length ys \<Longrightarrow> r ! k = attachment_of (i + k) (ys ! k)"
proof (induction ys arbitrary: i r k)
  case Nil
  then show ?case by simp
next
  case (Cons a ys)
  from Cons.prems(1) obtain f r' where
    f: "get_prop a ''filename'' = Inr f" and r': "convert (i + 1) ys = Inr r'"
    and r: "r = \<lparr>filename = or_else f (JStr (''photo-'' @ show_nat (i + 1) @ ''.jpg'')),
                content = or_else (own_prop a ''base64'') (JStr [])\<rparr> # r'"
    by (auto simp: ebind_def split: sum.splits)
  from f have fa: "f = own_prop a ''filename''"
    by (auto simp: get_prop_def split: if_splits)
  show ?case
  proof (cases k)
    case 0
    then show ?thesis by (simp add: r fa attachment_of_def or_else_def)
  next
    case (Suc j)
    with Cons.prems(2) have "j < length ys" by simp
    from Cons.IH [OF r' this] show ?thesis by (simp add: r Suc)
  qed
qed

lemma dispatch_business_mail:
  assumes "fst (snd (dispatch w a b c q)) = BusinessMail m # cs"
  shows "msAttachments (attachments q) = Inr (bm_attachments m)"
  using assms
  by (auto simp: dispatch_def Let_def split: sum.splits fetch_result.splits if_splits prod.splits)

section \<open>Validation\<close>

lemma rx_lit: "rx_match (Lit c # r) s = (\<exists>t. s = c # t \<and> rx_match r t)"
  by (cases s) auto

lemma rx_nonspace_plus:
  "rx_match (NonSpacePlus # r) s = (\<exists>a t. s = a @ t \<and> nonspace a \<and> rx_match r t)"
proof (induction s)
  case Nil
  show ?case by (simp add: nonspace_def)
next
  case (Cons x xs)
  show ?case
  proof
    assume "rx_match (NonSpacePlus # r) (x # xs)"
    then have x: "\<not> is_space x" and "rx_match (NonSpacePlus # r) xs \<or> rx_match r xs"
      by simp_all
    then show "\<exists>a t. x # xs = a @ t \<and> nonspace a \<and> rx_match r t"
    proof (elim disjE)
      assume "rx_match (NonSpacePlus # r) xs"
      with Cons.IH obtain a t where "xs = a @ t" "nonspace a" "rx_match r t" by blast
      with x have "x # xs = (x # a) @ t \<and> nonspace (x # a) \<and> rx_match r t"
        by (simp add: nonspace_def)
      then show ?thesis by blast
    next
      assume "rx_match r xs"
      with x have "x # xs = [x] @ xs \<and> nonspace [x] \<and> rx_match r xs"
        by (simp add: nonspace_def)
      then show ?thesis by blast
    qed
  next
    assume "\<exists>a t. x # xs = a @ t \<and> nonspace a \<and> rx_match r t"
    then obtain a t where s: "x # xs = a @ t" and a: "nonspace a" and t: "rx_match r t"
      by blast
    from a obtain a' where a': "a = x # a'" using s by (cases a) (auto simp: nonspace_def)
    with s have xs: "xs = a' @ t" by simp
    from a a' have x: "\<not> is_space x" by (simp add: nonspace_def)
    show "rx_match (NonSpacePlus # r) (x # xs)"
    proof (cases "a' = []")
      case True
      with xs t x show ?thesis by simp
    next
      case False
      with a a' have "nonspace a'" by (simp add: nonspace_def)
      with xs t Cons.IH have "rx_match (NonSpacePlus # r) xs" by blast
      with x show ?thesis by simp
    qed
  qed
qed

lemma email_pattern_matches: "rx_match email_pattern s = matches_email_pattern s"
proof
  assume "rx_match email_pattern s"
  then obtain a b c where "s = a @ CHR ''@'' # b @ CHR ''.'' # c" "nonspace a" "nonspace b" "nonspace c"
    unfolding email_pattern_def rx_nonspace_plus rx_lit by auto
  then show "matches_email_pattern s"
    unfolding matches_email_pattern_def by auto
next
  assume "matches_email_pattern s"
  then obtain a b c where s: "s = a @ CHR ''@'' # b @ CHR ''.'' # c"
    and n: "nonspace a" "nonspace b" "nonspace c"
    unfolding matches_email_pattern_def by auto
  have "rx_match [NonSpacePlus] c"
    unfolding rx_nonspace_plus using n(3) by auto
  then have "rx_match [Lit CHR ''.'', NonSpacePlus] (CHR ''.'' # c)"
    by simp
  then have "rx_match [NonSpacePlus, Lit CHR ''.'', NonSpacePlus] (b @ CHR ''.'' # c)"
    unfolding rx_nonspace_plus [of "[Lit CHR ''.'', NonSpacePlus]"] using n(2) by blast
  then have "rx_match [Lit CHR ''@'', NonSpacePlus, Lit CHR ''.'', NonSpacePlus]
               (CHR ''@'' # b @ CHR ''.'' # c)"
    by simp
  then show "rx_match email_pattern s"
    unfolding email_pattern_def s
      rx_nonspace_plus [of "[Lit CHR ''@'', NonSpacePlus, Lit CHR ''.'', NonSpacePlus]"]
    using n(1) by blast
qed

lemma submit_validated:
  assumes "configured w" and "JSON_parse w (body_text ev) = Some p" and "\<not> nullish p"
    and "\<not> truthy (own_prop p ''company'')" and "missing (destructure p) = Inr r"
  shows "submit w ev =
           (case r of
              Some f \<Rightarrow> (Inr (please_provide f), [], [])
            | None \<Rightarrow> dispatch w (process_env w ''MAILERSEND_TOKEN'')
                (process_env w ''MAILERSEND_FROM'') (process_env w ''MAILERSEND_TO'') (destructure p))"
  using assms
  by (simp add: submit_def configured_def get_prop_def please_provide_def Let_def split: option.splits)

lemma js_trim_blank: "blank v \<Longrightarrow> js_trim v = Inr []"
  by (cases v) (auto simp: blank_def)

lemma js_trim_filled: "filled v \<Longrightarrow> \<exists>s. js_trim v = Inr s \<and> s \<noteq> []"
  by (cases v) (auto simp: filled_def)

lemma email_test_matches: "email_matches v \<Longrightarrow> email_test v = Inr True"
  by (auto simp: email_matches_def email_test_def email_pattern_matches split: sum.splits)

lemma email_test_mismatches: "email_mismatches v \<Longrightarrow> email_test v = Inr False"
  by (auto simp: email_mismatches_def email_test_def email_pattern_matches split: sum.splits)

lemma missing_name: "blank (fullName q) \<Longrightarrow> missing q = Inr (Some ''name'')"
  by (simp add: missing_def ebind_def js_trim_blank)

lemma missing_email:
  assumes "filled (fullName q)" and "email_mismatches (email q)"
  shows "missing q = Inr (Some ''valid email'')"
  using js_trim_filled [OF assms(1)] email_test_mismatches [OF assms(2)]
  by (auto simp: missing_def ebind_def)

lemma missing_phone:
  assumes "filled (fullName q)" and "email_matches (email q)" and "blank (phone q)"
  shows "missing q = Inr (Some ''phone'')"
  using js_trim_filled [OF assms(1)] email_test_matches [OF assms(2)] js_trim_blank [OF assms(3)]
  by (auto simp: missing_def ebind_def)

lemma missing_address:
  assumes "filled (fullName q)" and "email_matches (email q)" and "filled (phone q)"
    and "blank (address q)"
  shows "missing q = Inr (Some ''postcode'')"
  using js_trim_filled [OF assms(1)] email_test_matches [OF assms(2)] js_trim_filled [OF assms(3)]
    js_trim_blank [OF assms(4)]
  by (auto simp: missing_def ebind_def)

lemma missing_service:
  assumes "filled (fullName q)" and "email_matches (email q)" and "filled (phone q)"
    and "filled (address q)" and "\<not> truthy (service q)"
  shows "missing q = Inr (Some ''service'')"
  using js_trim_filled [OF assms(1)] email_test_matches [OF assms(2)] js_trim_filled [OF assms(3)]
    js_trim_filled [OF assms(4)] assms(5)
  by (auto simp: missing_def ebind_def)

lemma missing_message:
  assumes "filled (fullName q)" and "email_matches (email q)" and "filled (phone q)"
    and "filled (address q)" and "truthy (service q)" and "blank (message q)"
  shows "missing q = Inr (Some ''message'')"
  using js_trim_filled [OF assms(1)] email_test_matches [OF assms(2)] js_trim_filled [OF assms(3)]
    js_trim_filled [OF assms(4)] assms(5) js_trim_blank [OF assms(6)]
  by (auto simp: missing_def ebind_def)

lemma missing_nothing:
  assumes "filled (fullName q)" and "email_matches (email q)" and "filled (phone q)"
    and "filled (address q)" and "truthy (service q)" and "filled (message q)"
  shows "missing q = Inr None"
  using js_trim_filled [OF assms(1)] email_test_matches [OF assms(2)] js_trim_filled [OF assms(3)]
    js_trim_filled [OF assms(4)] assms(5) js_trim_filled [OF assms(6)]
  by (auto simp: missing_def ebind_def)

lemma js_trim_Inr: "js_trim v = Inr s \<Longrightarrow> (s = [] \<longrightarrow> blank v) \<and> (s \<noteq> [] \<longrightarrow> filled v)"
  by (cases v) (auto simp: blank_def filled_def)

lemma email_test_True: "email_test v = Inr True \<Longrightarrow> email_matches v"
  by (auto simp: email_matches_def email_test_def email_pattern_matches split: sum.splits)

lemma missing_None:
  assumes "missing q = Inr None"
  shows "filled (fullName q)" and "email_matches (email q)" and "filled (phone q)"
    and "filled (address q)" and "truthy (service q)" and "filled (message q)"
proof -
  from assms obtain n where n: "js_trim (fullName q) = Inr n" "n \<noteq> []"
    by (auto simp: missing_def ebind_def split: sum.splits if_splits)
  with assms obtain m where m: "email_test (email q) = Inr m" "m"
    by (auto simp: missing_def ebind_def split: sum.splits if_splits)
  with assms n obtain ph where ph: "js_trim (phone q) = Inr ph" "ph \<noteq> []"
    by (auto simp: missing_def ebind_def split: sum.splits if_splits)
  with assms n m obtain a where a: "js_trim (address q) = Inr a" "a \<noteq> []"
    by (auto simp: missing_def ebind_def split: sum.splits if_splits)
  with assms n m ph have s: "truthy (service q)"
    by (auto simp: missing_def ebind_def split: sum.splits if_splits)
  with assms n m ph a obtain t where t: "js_trim (message q) = Inr t" "t \<noteq> []"
    by (auto simp: missing_def ebind_def split: sum.splits if_splits)
  show "filled (fullName q)" using js_trim_Inr [OF n(1)] n(2) by simp
  show "email_matches (email q)" using email_test_True m by simp
  show "filled (phone q)" using js_trim_Inr [OF ph(1)] ph(2) by simp
  show "filled (address q)" using js_trim_Inr [OF a(1)] a(2) by simp
  show "truthy (service q)" by (rule s)
  show "filled (message q)" using js_trim_Inr [OF t(1)] t(2) by simp
qed


text \<open>
  Claim C1, as the code has it. Take a POST request that the rate limiter does not
  reject, with the three environment variables set, whose body parses to a value other
  than \<^verbatim>\<open>null\<close> without a truthy \<^verbatim>\<open>company\<close>. The validator checks the destructured
  fields in the order name, email against the pattern, phone, address (the postcode when
  the payload has no address), service (truthy, not trimmed), message, and stops at the
  first check that fails: the response is 400 with the error
  \<^verbatim>\<open>Please provide a {field}.\<close> of that check, nothing is sent, and the fields after it
  are not looked at, whatever they hold. A check is passed or failed by a value of its
  kind only: a string for a trimmed field, a value that converts to text for the email.
  When the six checks pass, the request goes on to the provider. An email that does not
  match the pattern fails at the email step when the name is present.
\<close>

theorem validation_order:
  fixes w hs ev p
  defines "r \<equiv> handler w hs ev" and "q \<equiv> destructure p"
  assumes "httpMethod ev = ''POST''" and "\<not> limited w hs ev" and "configured w"
    and "JSON_parse w (body_text ev) = Some p" and "\<not> nullish p"
    and "\<not> truthy (own_prop p ''company'')"
  shows "(blank (fullName q) \<longrightarrow>
            outcome r = Inr (please_provide ''name'') \<and> calls r = []) \<and>
         (filled (fullName q) \<and> email_mismatches (email q) \<longrightarrow>
            outcome r = Inr (please_provide ''valid email'') \<and> calls r = []) \<and>
         (filled (fullName q) \<and> email_matches (email q) \<and> blank (phone q) \<longrightarrow>
            outcome r = Inr (please_provide ''phone'') \<and> calls r = []) \<and>
         (filled (fullName q) \<and> email_matches (email q) \<and> filled (phone q) \<and> blank (address q) \<longrightarrow>
            outcome r = Inr (please_provide ''postcode'') \<and> calls r = []) \<and>
         (filled (fullName q) \<and> email_matches (email q) \<and> filled (phone q) \<and> filled (address q) \<and>
          \<not> truthy (service q) \<longrightarrow>
            outcome r = Inr (please_provide ''service'') \<and> calls r = []) \<and>
         (filled (fullName q) \<and> email_matches (email q) \<and> filled (phone q) \<and> filled (address q) \<and>
          truthy (service q) \<and> blank (message q) \<longrightarrow>
            outcome r = Inr (please_provide ''message'') \<and> calls r = []) \<and>
         (filled (fullName q) \<and> email_matches (email q) \<and> filled (phone q) \<and> filled (address q) \<and>
          truthy (service q) \<and> filled (message q) \<longrightarrow>
            outcome r = fst (dispatch w (process_env w ''MAILERSEND_TOKEN'')
              (process_env w ''MAILERSEND_FROM'') (process_env w ''MAILERSEND_TO'') q))"
proof -
  note h = handler_not_limited [OF assms(3,4)]
  have fails: "outcome r = Inr (please_provide f) \<and> calls r = []"
    if "missing q = Inr (Some f)" for f
    using submit_validated [OF assms(5-8) that [unfolded q_def]]
    by (simp add: r_def h)
  have passes: "outcome r = fst (dispatch w (process_env w ''MAILERSEND_TOKEN'')
              (process_env w ''MAILERSEND_FROM'') (process_env w ''MAILERSEND_TO'') q)"
    if "missing q = Inr None"
    using submit_validated [OF assms(5-8) that [unfolded q_def]]
    by (simp add: r_def q_def h)
  show ?thesis
    using fails [OF missing_name] fails [OF missing_email] fails [OF missing_phone]
      fails [OF missing_address] fails [OF missing_service] fails [OF missing_message]
      passes [OF missing_nothing]
    by blast
qed

lemma configured_env_ok: "configured (world_at t env_ok p b c)"
  by (simp add: configured_def world_at_def process_env_def env_ok_def)

lemma parse_world_at: "JSON_parse (world_at t e p b c) s = Some p"
  by (simp add: world_at_def)

lemma post_is_POST: "httpMethod (post h) = ''POST''"
  by (simp add: post_def)

theorem validation_order_witness:
  "outcome (handler (world_at 0 env_ok blank_name_quote Rejected Rejected) Map.empty (post from_ip))
     = Inr (please_provide ''name'') \<and>
   outcome (handler (world_at 0 env_ok bad_email_quote Rejected Rejected) Map.empty (post from_ip))
     = Inr (please_provide ''valid email'') \<and>
   outcome (handler (world_at 0 env_ok (JObj valid_quote) (Resolved 202 None) Rejected) Map.empty
      (post from_ip))
     = Inr (json 200 (JObj [(''ok'', JBool True), (''id'', JStr ''sent'')]))"
proof -
  let ?v = "world_at 0 env_ok (JObj valid_quote) (Resolved 202 None) Rejected"
  have n: "\<not> nullish blank_name_quote" "\<not> nullish bad_email_quote" "\<not> nullish (JObj valid_quote)"
    by (simp_all add: blank_name_quote_def bad_email_quote_def)
  have k: "\<not> truthy (own_prop blank_name_quote ''company'')"
    "\<not> truthy (own_prop bad_email_quote ''company'')"
    "\<not> truthy (own_prop (JObj valid_quote) ''company'')"
    by (simp_all add: blank_name_quote_def bad_email_quote_def valid_quote_def)
  have e: "\<not> matches_email_pattern ''ann@mail''" "matches_email_pattern ''ann@mail.test''"
    by (simp_all add: email_pattern_def is_space_def flip: email_pattern_matches)
  have f1: "blank (fullName (destructure blank_name_quote))"
    by (simp add: blank_name_quote_def destructure_def field_def blank_def trim_def is_space_def)
  have f2: "filled (fullName (destructure bad_email_quote))"
    "email_mismatches (email (destructure bad_email_quote))"
    by (simp_all add: bad_email_quote_def destructure_def field_def filled_def email_mismatches_def
        trim_def is_space_def e)
  have f3: "filled (fullName (destructure (JObj valid_quote)))"
    "email_matches (email (destructure (JObj valid_quote)))"
    "filled (phone (destructure (JObj valid_quote)))"
    "filled (address (destructure (JObj valid_quote)))"
    "truthy (service (destructure (JObj valid_quote)))"
    "filled (message (destructure (JObj valid_quote)))"
    by (simp_all add: valid_quote_def destructure_def field_def or_else_def filled_def
        email_matches_def trim_def is_space_def e)
  have d: "fst (dispatch ?v (process_env ?v ''MAILERSEND_TOKEN'') (process_env ?v ''MAILERSEND_FROM'')
                 (process_env ?v ''MAILERSEND_TO'') (destructure (JObj valid_quote)))
             = Inr (json 200 (JObj [(''ok'', JBool True), (''id'', JStr ''sent'')]))"
    by (simp add: eval_defs br_def)
  from validation_order
      [OF post_is_POST limited_first_request configured_env_ok parse_world_at n(1) k(1)]
    validation_order
      [OF post_is_POST limited_first_request configured_env_ok parse_world_at n(2) k(2)]
    validation_order
      [OF post_is_POST limited_first_request configured_env_ok parse_world_at n(3) k(3),
        of 0 "Resolved 202 None" Rejected]
    f1 f2 f3 d
  show ?thesis by simp
qed

text \<open>
  Claim C1 as stated covers every POST with well-formed JSON and no truthy
  \<^verbatim>\<open>company\<close>. Three of them get no response at all, the handler throws: the payload
  \<^verbatim>\<open>{"fullName": null}\<close> (the name check calls \<^verbatim>\<open>trim\<close> on \<^verbatim>\<open>null\<close>), the payload
  \<^verbatim>\<open>null\<close> (the honeypot reads a property of it), and an email that is an object with
  a \<^verbatim>\<open>toString\<close> property (the pattern test cannot convert it). And a quote with a bad
  email gets 429 as the sixth request of its client within the window, and 500 when no
  environment variable is set.
\<close>

theorem validation_counterexample:
  "outcome (handler (world_at 0 env_ok null_name_quote Rejected Rejected) Map.empty (post from_ip))
     = Inl TypeError \<and>
   outcome (handler (world_at 0 env_ok JNull Rejected Rejected) Map.empty (post from_ip))
     = Inl TypeError \<and>
   outcome (handler (world_at 0 env_ok object_email_quote Rejected Rejected) Map.empty (post from_ip))
     = Inl TypeError \<and>
   outcome (handler (world_at 300000 env_ok bad_email_quote Rejected Rejected) busy_store (post from_ip))
     = Inr too_many_requests \<and>
   outcome (handler (world_at 0 Map.empty bad_email_quote Rejected Rejected) Map.empty (post from_ip))
     = Inr not_configured"
proof -
  have s: "fst (submit (world_at 0 env_ok null_name_quote Rejected Rejected) (post from_ip)) = Inl TypeError"
    "fst (submit (world_at 0 env_ok JNull Rejected Rejected) (post from_ip)) = Inl TypeError"
    "fst (submit (world_at 0 env_ok object_email_quote Rejected Rejected) (post from_ip)) = Inl TypeError"
    "fst (submit (world_at 0 Map.empty bad_email_quote Rejected Rejected) (post from_ip)) = Inr not_configured"
    by (simp_all add: eval_defs null_name_quote_def object_email_quote_def not_configured_def)
  have l: "outcome (handler (world_at 300000 env_ok bad_email_quote Rejected Rejected)
      busy_store (post from_ip)) = Inr too_many_requests"
    by (simp add: world_at_def post_def handler_def rate_limit_def client_ip_from_ip
        new_bucket_def bucket_of_def busy_store_def RATE_def WINDOW_MS_def too_many_requests_def)
  show ?thesis
    using handler_not_limited(1) [OF post_is_POST limited_first_request] s l
    by simp
qed


section \<open>The attachments of a valid quote\<close>

lemma convert_ok: "\<forall>a \<in> set ys. \<not> nullish a \<Longrightarrow> \<exists>r. convert i ys = Inr r"
proof (induction ys arbitrary: i)
  case Nil
  show ?case by simp
next
  case (Cons a ys)
  from Cons.prems have "\<forall>a \<in> set ys. \<not> nullish a" by simp
  from Cons.IH [OF this, of "i + 1"] obtain r where "convert (i + 1) ys = Inr r" by blast
  with Cons.prems show ?case by (simp add: ebind_def get_prop_def)
qed

lemma safe_filled: "filled v \<Longrightarrow> \<exists>s. safe v = Inr s"
  by (cases v) (auto simp: filled_def safe_def or_else_def)

lemma safe_email_matches: "email_matches v \<Longrightarrow> \<exists>s. safe v = Inr s"
  by (auto simp: email_matches_def safe_def or_else_def split: sum.splits)

lemma safe_truthy: "truthy v \<Longrightarrow> to_string v = Inr s \<Longrightarrow> safe v = Inr s"
  by (simp add: safe_def or_else_def)

lemma safe_or_else: "safe v = Inr s \<Longrightarrow> \<exists>t. safe (or_else v (JStr d)) = Inr t"
  by (auto simp: safe_def or_else_def)

lemma build_content_ok:
  assumes "missing q = Inr None" and "to_string (service q) = Inr sv" and "safe (date q) = Inr dt"
  shows "\<exists>c. build_content q = Inr c"
proof -
  note v = missing_None [OF assms(1)]
  obtain n ph e a m d' where
    "safe (fullName q) = Inr n" "safe (phone q) = Inr ph" "safe (email q) = Inr e"
    "safe (address q) = Inr a" "safe (message q) = Inr m"
    "safe (or_else (date q) (JStr ''n/a'')) = Inr d'"
    using safe_filled [OF v(1)] safe_filled [OF v(3)] safe_email_matches [OF v(2)]
      safe_filled [OF v(4)] safe_filled [OF v(6)] safe_or_else [OF assms(3)]
    by metis
  moreover have "safe (service q) = Inr sv"
    using v(5) assms(2) by (rule safe_truthy)
  ultimately show ?thesis
    using assms(3) by (simp add: build_content_def ebind_def)
qed

lemma sent_attachments_converted:
  assumes "sent_attachments (handler w hs ev) = Some atts"
    and "JSON_parse w (body_text ev) = Some p" and "own_prop p ''attachments'' = JArr xs"
  shows "length atts = min 5 (length xs) \<and> length atts \<le> 5 \<and>
         (\<forall>i < length atts. atts ! i = attachment_of i (xs ! i))"
proof -
  from assms(1) obtain m cs where c: "calls (handler w hs ev) = BusinessMail m # cs"
    and atts: "atts = bm_attachments m"
    by (auto simp: sent_attachments_def split: list.splits call.splits)
  then have ne: "calls (handler w hs ev) \<noteq> []" by simp
  from handler_reaches_dispatch [OF ne] assms(2) have
    s: "submit w ev = dispatch w (process_env w ''MAILERSEND_TOKEN'')
          (process_env w ''MAILERSEND_FROM'') (process_env w ''MAILERSEND_TO'') (destructure p)"
    by auto
  from c have "fst (snd (submit w ev)) = BusinessMail m # cs"
    by (simp add: handler_called(4) [OF ne])
  from dispatch_business_mail [OF this [unfolded s]]
  have ms: "msAttachments (attachments (destructure p)) = Inr atts" by (simp add: atts)
  from assms(3) have "truthy p" by (cases p) auto
  with assms(3) have "attachments (destructure p) = JArr xs"
    by (simp add: destructure_def field_def)
  with ms have cv: "xs \<noteq> [] \<Longrightarrow> convert 0 (take 5 xs) = Inr atts" and e: "xs = [] \<Longrightarrow> atts = []"
    by (auto simp: msAttachments_def split: if_splits)
  show ?thesis
  proof (cases "xs = []")
    case True
    with e show ?thesis by simp
  next
    case False
    note cv = cv [OF False]
    have l: "length atts = min 5 (length xs)"
      using convert_length [OF cv] by (simp add: min.commute)
    have "atts ! i = attachment_of i (xs ! i)" if "i < length atts" for i
      using convert_nth [OF cv, of i] that l by simp
    with l show ?thesis by simp
  qed
qed

lemma dispatch_sends:
  assumes "build_content q = Inr c" and "msAttachments (attachments q) = Inr atts"
  shows "\<exists>m cs. fst (snd (dispatch w a b r q)) = BusinessMail m # cs"
  using assms
  by (auto simp: dispatch_def Let_def split: fetch_result.splits prod.splits)

text \<open>
  Claim C8, as the code has it. Take a valid payload that reaches the dispatcher (a POST
  that the rate limiter does not reject, the three environment variables set, no truthy
  \<^verbatim>\<open>company\<close>, no failing check) whose service and date convert to text and whose
  \<^verbatim>\<open>attachments\<close> is an array with no \<^verbatim>\<open>null\<close> among its first five entries. Then the
  business email is sent, and it carries the first five entries of the array and no
  more. The entry at index \<open>i\<close> becomes \<^verbatim>\<open>{filename, content}\<close>: the file name is the
  entry's \<^verbatim>\<open>filename\<close>, or \<^verbatim>\<open>photo-(i+1).jpg\<close> when that is missing or falsy; the
  content is the entry's \<^verbatim>\<open>base64\<close>, or the empty string when that is missing or
  falsy.
\<close>

theorem attachments_capped_at_five:
  assumes "httpMethod ev = ''POST''" and "\<not> limited w hs ev" and "configured w"
    and "JSON_parse w (body_text ev) = Some p" and "\<not> truthy (own_prop p ''company'')"
    and "missing (destructure p) = Inr None"
    and "to_string (service (destructure p)) = Inr sv" and "safe (date (destructure p)) = Inr dt"
    and "own_prop p ''attachments'' = JArr xs" and "\<forall>a \<in> set (take 5 xs). \<not> nullish a"
  shows "\<exists>atts. sent_attachments (handler w hs ev) = Some atts \<and>
           length atts = min 5 (length xs) \<and> length atts \<le> 5 \<and>
           (\<forall>i < length atts. atts ! i = attachment_of i (xs ! i))"
proof -
  let ?q = "destructure p"
  from assms(9) have n: "\<not> nullish p" and t: "truthy p" by (cases p; simp)+
  from build_content_ok [OF assms(6-8)] obtain c where c: "build_content ?q = Inr c" by blast
  have a: "attachments ?q = JArr xs"
    using assms(9) t by (simp add: destructure_def field_def)
  from convert_ok [OF assms(10)] obtain r where "convert 0 (take 5 xs) = Inr r" by blast
  then have "\<exists>r. msAttachments (attachments ?q) = Inr r"
    by (simp add: a msAttachments_def)
  then obtain r where r: "msAttachments (attachments ?q) = Inr r" by blast
  have s: "submit w ev = dispatch w (process_env w ''MAILERSEND_TOKEN'')
          (process_env w ''MAILERSEND_FROM'') (process_env w ''MAILERSEND_TO'') ?q"
    using submit_validated [OF assms(3,4) n assms(5,6)] by simp
  from dispatch_sends [OF c r] s obtain m cs where
    "fst (snd (submit w ev)) = BusinessMail m # cs" by metis
  then have "sent_attachments (handler w hs ev) = Some (bm_attachments m)"
    by (simp add: sent_attachments_def handler_not_limited(2) [OF assms(1,2)])
  with sent_attachments_converted [OF this assms(4,9)] show ?thesis by blast
qed

theorem attachments_capped_at_five_witness:
  "map_option (map filename) (sent_attachments (handler
      (world_at 0 env_ok quote_with_attachments (Resolved 202 None) (Resolved 202 None))
      Map.empty (post from_ip))) =
     Some [JStr ''door.png'', JStr ''photo-2.jpg'', JStr ''wall.jpg'', JStr ''photo-4.jpg'',
           JStr ''photo-5.jpg''] \<and>
   map_option (map content) (sent_attachments (handler
      (world_at 0 env_ok quote_with_attachments (Resolved 202 None) (Resolved 202 None))
      Map.empty (post from_ip))) =
     Some [JStr ''aGk='', JStr ''Zm9v'', JStr [], JStr [], JStr ''YmFy'']"
proof -
  let ?w = "world_at 0 env_ok quote_with_attachments (Resolved 202 None) (Resolved 202 None)"
  let ?q = "destructure quote_with_attachments"
  have k: "\<not> truthy (own_prop quote_with_attachments ''company'')"
    by (simp add: quote_with_attachments_def valid_quote_def)
  have m: "missing ?q = Inr None"
    by (simp add: quote_with_attachments_def valid_quote_def destructure_def field_def or_else_def
        missing_def ebind_def email_test_def email_pattern_def trim_def is_space_def)
  have sv: "to_string (service ?q) = Inr ''Shelves''" and dt: "safe (date ?q) = Inr []"
    by (simp_all add: quote_with_attachments_def valid_quote_def destructure_def field_def
        safe_def or_else_def)
  have a: "own_prop quote_with_attachments ''attachments'' = JArr seven_attachments"
    by (simp add: quote_with_attachments_def valid_quote_def)
  have nn: "\<forall>a \<in> set (take 5 seven_attachments). \<not> nullish a"
    by (simp add: seven_attachments_def)
  have d: "show_nat k = [digit_char k]" if "k < 10" for k
    using that by (simp add: show_nat.simps)
  have c: "calls (handler ?w Map.empty (post from_ip)) = fst (snd (submit ?w (post from_ip)))"
    by (rule handler_not_limited(2) [OF post_is_POST limited_first_request])
  have h: "sent_attachments (handler ?w Map.empty (post from_ip)) =
              Some [\<lparr>filename = JStr ''door.png'', content = JStr ''aGk=''\<rparr>,
                    \<lparr>filename = JStr ''photo-2.jpg'', content = JStr ''Zm9v''\<rparr>,
                    \<lparr>filename = JStr ''wall.jpg'', content = JStr []\<rparr>,
                    \<lparr>filename = JStr ''photo-4.jpg'', content = JStr []\<rparr>,
                    \<lparr>filename = JStr ''photo-5.jpg'', content = JStr ''YmFy''\<rparr>]"
    unfolding sent_attachments_def c
    by (simp add: eval_defs br_def quote_with_attachments_def seven_attachments_def d digit_char_def)
  from attachments_capped_at_five
    [OF post_is_POST limited_first_request configured_env_ok parse_world_at k m sv dt a nn] h
  show ?thesis by simp
qed

text \<open>
  Claim C8 as stated covers every valid payload whose \<^verbatim>\<open>attachments\<close> is an array.
  With the array \<^verbatim>\<open>[null]\<close> the callback reads \<^verbatim>\<open>filename\<close> of \<^verbatim>\<open>null\<close>, outside
  every \<^verbatim>\<open>try\<close>: the handler throws and no email is sent. The same happens when
  the date is an object with a \<^verbatim>\<open>toString\<close> property, which \<^verbatim>\<open>safe\<close> cannot
  convert. And the sixth request of a client within the window sends nothing.
\<close>

theorem attachments_counterexample:
  "outcome (handler (world_at 0 env_ok null_attachment_quote (Resolved 202 None) (Resolved 202 None))
      Map.empty (post from_ip)) = Inl TypeError \<and>
   calls (handler (world_at 0 env_ok null_attachment_quote (Resolved 202 None) (Resolved 202 None))
      Map.empty (post from_ip)) = [] \<and>
   outcome (handler (world_at 0 env_ok object_date_quote (Resolved 202 None) (Resolved 202 None))
      Map.empty (post from_ip)) = Inl TypeError \<and>
   calls (handler (world_at 0 env_ok object_date_quote (Resolved 202 None) (Resolved 202 None))
      Map.empty (post from_ip)) = [] \<and>
   outcome (handler (world_at 300000 env_ok quote_with_attachments (Resolved 202 None) (Resolved 202 None))
      busy_store (post from_ip)) = Inr too_many_requests \<and>
   calls (handler (world_at 300000 env_ok quote_with_attachments (Resolved 202 None) (Resolved 202 None))
      busy_store (post from_ip)) = []"
proof -
  have s: "submit (world_at 0 env_ok null_attachment_quote (Resolved 202 None) (Resolved 202 None))
             (post from_ip) = (Inl TypeError, [], [])"
    "submit (world_at 0 env_ok object_date_quote (Resolved 202 None) (Resolved 202 None))
             (post from_ip) = (Inl TypeError, [], [])"
    by (simp_all add: eval_defs null_attachment_quote_def object_date_quote_def)
  have l: "outcome (handler (world_at 300000 env_ok quote_with_attachments (Resolved 202 None)
      (Resolved 202 None)) busy_store (post from_ip)) = Inr too_many_requests"
    "calls (handler (world_at 300000 env_ok quote_with_attachments (Resolved 202 None)
      (Resolved 202 None)) busy_store (post from_ip)) = []"
    by (simp_all add: world_at_def post_def handler_def rate_limit_def client_ip_from_ip
        new_bucket_def bucket_of_def busy_store_def RATE_def WINDOW_MS_def too_many_requests_def)
  show ?thesis
    using handler_not_limited [OF post_is_POST limited_first_request] s l
    by simp
qed


section \<open>The confirmation email\<close>

text \<open>
  When the business email has succeeded, the confirmation email is issued and its result
  is read by nobody: whatever the confirmation call gives (a response of any status, or a
  rejection), the handler returns the same 200 with \<^verbatim>\<open>{ok: true, id}\<close>, issues the same
  calls and leaves the same store. The console gets a warning when the call is rejected,
  and only then.
\<close>

lemma confirmation_fetch_independent:
  assumes "calls (handler w hs ev) \<noteq> []" and "business_fetch w = Resolved st js" and "ok st"
  shows "(\<exists>b m. calls (handler w hs ev) = [BusinessMail b, ConfirmationMail m]) \<and>
         (\<forall>c. outcome (handler (w\<lparr>confirmation_fetch := c\<rparr>) hs ev) =
                Inr (json 200 (JObj [(''ok'', JBool True),
                  (''id'', if truthy (opt_prop (provider_data js) ''message_id'')
                           then opt_prop (provider_data js) ''message_id'' else JStr ''sent'')])) \<and>
              calls (handler (w\<lparr>confirmation_fetch := c\<rparr>) hs ev) = calls (handler w hs ev) \<and>
              store (handler (w\<lparr>confirmation_fetch := c\<rparr>) hs ev) = store (handler w hs ev) \<and>
              (Warn ''Confirmation email failed:'' \<in> set (logs (handler (w\<lparr>confirmation_fetch := c\<rparr>) hs ev)))
                = (c = Rejected))"
proof -
  have sent: "\<exists>b m. snd (submit w' ev) =
                ([BusinessMail b, ConfirmationMail m],
                 if confirmation_fetch w' = Rejected then [Warn ''Confirmation email failed:''] else [])"
    if "calls (handler w' hs ev) \<noteq> []" and "business_fetch w' = Resolved st js" for w'
  proof -
    from handler_reaches_dispatch [OF that(1)] obtain p c' atts where
      "build_content (destructure p) = Inr c'" "msAttachments (attachments (destructure p)) = Inr atts"
      and s: "submit w' ev = dispatch w' (process_env w' ''MAILERSEND_TOKEN'')
            (process_env w' ''MAILERSEND_FROM'') (process_env w' ''MAILERSEND_TO'') (destructure p)"
      by blast
    from dispatch_succeeded [OF this(1,2) that(2) assms(3)] show ?thesis
      by (simp add: s)
  qed
  have c1: "\<exists>b m. calls (handler w hs ev) = [BusinessMail b, ConfirmationMail m]"
    using sent [OF assms(1,2)] handler_called(4) [OF assms(1)] by auto
  have c2: "outcome (handler (w\<lparr>confirmation_fetch := c\<rparr>) hs ev) =
                Inr (json 200 (JObj [(''ok'', JBool True),
                  (''id'', if truthy (opt_prop (provider_data js) ''message_id'')
                           then opt_prop (provider_data js) ''message_id'' else JStr ''sent'')])) \<and>
              calls (handler (w\<lparr>confirmation_fetch := c\<rparr>) hs ev) = calls (handler w hs ev) \<and>
              store (handler (w\<lparr>confirmation_fetch := c\<rparr>) hs ev) = store (handler w hs ev) \<and>
              (Warn ''Confirmation email failed:'' \<in> set (logs (handler (w\<lparr>confirmation_fetch := c\<rparr>) hs ev)))
                = (c = Rejected)" for c
  proof -
    let ?w = "w\<lparr>confirmation_fetch := c\<rparr>"
    have called: "calls (handler ?w hs ev) \<noteq> []"
      using assms(1) by (simp add: handler_confirmation_fetch)
    have b: "business_fetch ?w = Resolved st js" using assms(2) by simp
    from sent [OF called b] have
      lg: "snd (snd (submit ?w ev)) = (if c = Rejected then [Warn ''Confirmation email failed:''] else [])"
      by auto
    have "logs (handler ?w hs ev) =
            (case rate_limit (now ?w) (headers ev) hs of
               Inl e \<Rightarrow> [Warn ''Rate limit check failed:''] | Inr x \<Rightarrow> [])
            @ (if c = Rejected then [Warn ''Confirmation email failed:''] else [])"
      using handler_logs [OF handler_called(1,2) [OF called]] by (simp add: lg)
    then have "(Warn ''Confirmation email failed:'' \<in> set (logs (handler ?w hs ev))) = (c = Rejected)"
      by (auto split: sum.splits)
    moreover have "outcome (handler ?w hs ev) = outcome (handler w hs ev)"
      by (simp add: handler_confirmation_fetch)
    ultimately show ?thesis
      using handler_resolved [OF assms(1,2)] assms(3)
      by (simp add: handler_confirmation_fetch)
  qed
  from c1 c2 show ?thesis by blast
qed

text \<open>
  Claim C6. The response is the same whatever becomes of the confirmation email, as the
  claim says. Its failure is logged only when the call throws: when the provider answers
  the confirmation call with an error status, here 422, the detached task drops the
  response without reading it, and nothing is written to the console. The business
  call, a few lines above in the same function, does test \<^verbatim>\<open>resp.ok\<close> and logs the
  error.
\<close>

theorem confirmation_error_response_not_logged:
  "outcome (handler (world_at 0 env_ok (JObj valid_quote) (Resolved 202 None)
       (Resolved 422 (Some (JObj [(''message'', JStr ''bad to'')])))) Map.empty (post from_ip))
     = Inr (json 200 (JObj [(''ok'', JBool True), (''id'', JStr ''sent'')])) \<and>
   length (calls (handler (world_at 0 env_ok (JObj valid_quote) (Resolved 202 None)
       (Resolved 422 (Some (JObj [(''message'', JStr ''bad to'')])))) Map.empty (post from_ip))) = 2 \<and>
   logs (handler (world_at 0 env_ok (JObj valid_quote) (Resolved 202 None)
       (Resolved 422 (Some (JObj [(''message'', JStr ''bad to'')])))) Map.empty (post from_ip)) = [] \<and>
   logs (handler (world_at 0 env_ok (JObj valid_quote) (Resolved 202 None) Rejected)
       Map.empty (post from_ip)) = [Warn ''Confirmation email failed:'']"
proof -
  have r: "rate_limit (now (world_at 0 env_ok p b c)) (headers (post from_ip)) Map.empty
             = Inr ([''203.0.113.7'' \<mapsto> [0]], False)" for p b c
    by (simp add: rate_limit_def post_def world_at_def client_ip_from_ip new_bucket_def
        bucket_of_def RATE_def)
  have s: "fst (submit (world_at 0 env_ok (JObj valid_quote) (Resolved 202 None) c) (post from_ip))
             = Inr (json 200 (JObj [(''ok'', JBool True), (''id'', JStr ''sent'')]))"
    "length (fst (snd (submit (world_at 0 env_ok (JObj valid_quote) (Resolved 202 None) c)
        (post from_ip)))) = 2"
    "snd (snd (submit (world_at 0 env_ok (JObj valid_quote) (Resolved 202 None) c) (post from_ip)))
       = (case c of Rejected \<Rightarrow> [Warn ''Confirmation email failed:''] | Resolved st js \<Rightarrow> [])" for c
    by (simp_all add: eval_defs br_def)
  show ?thesis
    using handler_not_limited [OF post_is_POST limited_first_request]
      handler_logs [OF post_is_POST limited_first_request]
    by (simp add: r s)
qed

section \<open>The postcode fallback\<close>

lemma address_destructured:
  "address (destructure p) =
     (if own_prop p ''address'' = JUndefined then or_else (own_prop p ''postcode'') (JStr [])
      else own_prop p ''address'')"
  by (cases p) (auto simp: destructure_def field_def or_else_def Let_def)

text \<open>
  Claim C10, as the code has it. The destructured address is the payload's
  \<^verbatim>\<open>address\<close> whenever that property is defined, and the postcode (or the empty
  string) only when it is \<^verbatim>\<open>undefined\<close>. So for a payload whose address is present as
  an empty or blank string and whose postcode is not empty, once name, email and phone
  pass, validation fails at the address check and the postcode is not used; a request
  that reaches the validation is answered 400 with \<^verbatim>\<open>Please provide a postcode.\<close>
\<close>

theorem empty_address_hides_postcode:
  assumes "own_prop p ''address'' = JStr a" and "trim a = []"
    and "truthy (own_prop p ''postcode'')"
    and "fullName (destructure p) = JStr n" and "trim n \<noteq> []"
    and "email_test (email (destructure p)) = Inr True"
    and "phone (destructure p) = JStr ph" and "trim ph \<noteq> []"
  shows "address (destructure p) = JStr a \<and>
         missing (destructure p) = Inr (Some ''postcode'') \<and>
         (\<forall>w hs ev. httpMethod ev = ''POST'' \<and> \<not> limited w hs ev \<and> configured w \<and>
            JSON_parse w (body_text ev) = Some p \<and> \<not> truthy (own_prop p ''company'') \<longrightarrow>
            outcome (handler w hs ev) = Inr (please_provide ''postcode'')) \<and>
         (\<forall>p'. address (destructure p') =
            (if own_prop p' ''address'' = JUndefined then or_else (own_prop p' ''postcode'') (JStr [])
             else own_prop p' ''address''))"
proof -
  have a: "address (destructure p) = JStr a"
    using assms(1) by (simp add: address_destructured)
  from assms(1) have n: "\<not> nullish p" by (cases p) auto
  have m: "missing (destructure p) = Inr (Some ''postcode'')"
    using assms(2,4-8) a by (simp add: missing_def ebind_def)
  have "outcome (handler w hs ev) = Inr (please_provide ''postcode'')"
    if "httpMethod ev = ''POST''" and "\<not> limited w hs ev" and "configured w"
      and "JSON_parse w (body_text ev) = Some p" and "\<not> truthy (own_prop p ''company'')"
    for w hs ev
    using submit_validated [OF that(3,4) n that(5) m]
    by (simp add: handler_not_limited [OF that(1,2)])
  with a m address_destructured show ?thesis by blast
qed

theorem empty_address_hides_postcode_witness:
  "address (destructure empty_address_quote) = JStr ''  '' \<and>
   missing (destructure empty_address_quote) = Inr (Some ''postcode'') \<and>
   outcome (handler (world_at 0 env_ok empty_address_quote Rejected Rejected) Map.empty (post from_ip))
     = Inr (please_provide ''postcode'')"
proof -
  let ?w = "world_at 0 env_ok empty_address_quote Rejected Rejected"
  have p: "httpMethod (post from_ip) = ''POST''" by (simp add: post_def)
  have c: "configured ?w"
    by (simp add: configured_def world_at_def process_env_def env_ok_def)
  have j: "JSON_parse ?w (body_text (post from_ip)) = Some empty_address_quote"
    by (simp add: world_at_def)
  have k: "\<not> truthy (own_prop empty_address_quote ''company'')"
    "own_prop empty_address_quote ''address'' = JStr ''  ''"
    "truthy (own_prop empty_address_quote ''postcode'')"
    by (simp_all add: empty_address_quote_def valid_quote_def)
  have f: "fullName (destructure empty_address_quote) = JStr ''Ann Lee''"
    "email_test (email (destructure empty_address_quote)) = Inr True"
    "phone (destructure empty_address_quote) = JStr ''07000 000000''"
    by (simp_all add: empty_address_quote_def valid_quote_def destructure_def field_def
        email_test_def email_pattern_def is_space_def)
  have t: "trim ''  '' = []" "trim ''Ann Lee'' \<noteq> []" "trim ''07000 000000'' \<noteq> []"
    by (simp_all add: trim_def is_space_def)
  from empty_address_hides_postcode [OF k(2) t(1) k(3) f(1) t(2) f(2) f(3) t(3)]
    p limited_first_request [of ?w] c j k(1)
  show ?thesis by blast
qed

text \<open>
  Claim C10 as stated includes every falsy, defined address. With \<^verbatim>\<open>address: null\<close>
  beside a postcode, in an otherwise valid quote, there is no 400: the address check
  calls \<^verbatim>\<open>trim\<close> on \<^verbatim>\<open>null\<close> and the handler throws.
\<close>

theorem null_address_counterexample:
  "httpMethod (post from_ip) = ''POST'' \<and>
   JSON_parse (world_at 0 env_ok null_address_quote Rejected Rejected) (body_text (post from_ip))
     = Some null_address_quote \<and>
   own_prop null_address_quote ''address'' = JNull \<and> \<not> truthy JNull \<and>
   own_prop null_address_quote ''postcode'' = JStr ''AB1 2CD'' \<and>
   outcome (handler (world_at 0 env_ok null_address_quote Rejected Rejected) Map.empty (post from_ip))
     = Inl TypeError"
proof -
  have p: "httpMethod (post from_ip) = ''POST''" by (simp add: post_def)
  have "fst (submit (world_at 0 env_ok null_address_quote Rejected Rejected) (post from_ip)) = Inl TypeError"
    by (simp add: eval_defs null_address_quote_def)
  with handler_not_limited(1) [OF p limited_first_request] show ?thesis
    by (simp add: p world_at_def null_address_quote_def valid_quote_def)
qed

end
